theory Spec2Isabelle
  imports Complex_Main
begin

section \<open>Data model\<close>

subsection \<open>Request bodies\<close>

text \<open>
  A request body is whatever JSON the client sent. Reading a property of an object that
  lacks it, or of a boolean, number, string or array (for the property names the
  handlers use), gives \<open>undefined\<close>, here \<open>None\<close>; destructuring \<open>null\<close> throws a
  \<open>TypeError\<close>, which each handler writes out. Numbers are taken as exact rationals.
\<close>

datatype json =
    JNull
  | JBool bool
  | JNum rat
  | JStr string
  | JArr "json list"
  | JObj "(string \<times> json) list"

text \<open>
  What a handler can catch: the two errors \<open>callGoogleMapsAPI\<close> throws (an HTTP status
  outside 2xx with its status text; a provider status other than OK and ZERO_RESULTS with
  its message), the error of the geocoder of index.js, and the errors of the runtime.
\<close>

datatype exn =
    HttpError nat string
  | ApiStatusError "string option" string
  | GeocodingFailed string
  | TypeError
  | SyntaxError
  | NetworkError

definition field :: "json \<Rightarrow> string \<Rightarrow> json option" where
  "field v k = (case v of JObj kvs \<Rightarrow> map_of kvs k | _ \<Rightarrow> None)"

text \<open>JavaScript truthiness of a value that may be \<open>undefined\<close>.\<close>

fun truthy :: "json option \<Rightarrow> bool" where
  "truthy None = False"
| "truthy (Some JNull) = False"
| "truthy (Some (JBool b)) = b"
| "truthy (Some (JNum n)) = (n \<noteq> 0)"
| "truthy (Some (JStr s)) = (s \<noteq> [])"
| "truthy (Some (JArr _)) = True"
| "truthy (Some (JObj _)) = True"

subsection \<open>Provider records\<close>

text \<open>
  The provider's answers are read at the types of its interface: a field is a string, a
  number, a list or a nested record, and \<open>None\<close> stands for a field that is missing or
  \<open>null\<close> (the code never tells the two apart).
\<close>

record latlng =
  lat :: rat
  lng :: rat

record geometry =
  location :: "latlng option"

record raw_place =
  name :: "string option"
  vicinity :: "string option"
  formatted_address :: "string option"
  rating :: "rat option"
  price_level :: "rat option"
  place_id :: "string option"
  geometry :: "geometry option"
  types :: "string list option"

record textval =
  text_value :: "string option"

record leg =
  duration :: "textval option"
  distance :: "textval option"
  start_address :: "string option"
  end_address :: "string option"

record route =
  legs :: "leg list option"

record api_data =
  api_status :: "string option"
  error_message :: "string option"
  results :: "raw_place list option"
  routes :: "route list option"

subsection \<open>Responses\<close>

text \<open>
  The result of a JavaScript division of a finite number by a count: \<open>0 / 0\<close> is
  \<open>NaN\<close>, a non-zero number over zero is an infinity.
\<close>

datatype jsnum = Finite rat | NaN | PosInfinity | NegInfinity

definition js_div :: "rat \<Rightarrow> nat \<Rightarrow> jsnum" where
  "js_div a n =
     (if n = 0 then (if a = 0 then NaN else if 0 < a then PosInfinity else NegInfinity)
      else Finite (a / of_nat n))"

text \<open>A normalised place, as the search handler returns it (\<open>None\<close> is \<open>null\<close>).\<close>

record place =
  out_name :: string
  out_address :: string
  out_rating :: "rat option"
  out_price_level :: "rat option"
  out_place_id :: string
  out_location :: latlng
  out_types :: "string list"

text \<open>
  The success bodies keep the fields the properties below speak about; the generated
  links (\<open>place_embeds\<close>, \<open>map_url\<close>, \<open>directions_url\<close>, \<open>url\<close>), which are string
  formatting of these fields, are left out.
\<close>

record search_payload =
  places :: "place list"
  center_lat :: jsnum
  center_lng :: jsnum
  total_results :: nat

record directions_payload =
  directions :: route
  dir_duration :: "string option"
  dir_distance :: "string option"
  dir_start_address :: "string option"
  dir_end_address :: "string option"
  dir_mode :: json

text \<open>\<open>MiddlewareBody\<close> is the body of a response that a library middleware or the
  framework writes (401, 404), which the source does not fix.\<close>

datatype body =
    NoBody
  | MiddlewareBody
  | ErrorOnly string
  | ErrorMessage string string
  | ErrorThrown string exn
  | Health
  | SearchOk search_payload
  | DirectionsOk directions_payload

record response =
  status :: nat
  body :: body

definition json_response :: "body \<Rightarrow> nat \<Rightarrow> response" where
  "json_response b code = \<lparr>status = code, body = b\<rparr>"

section \<open>The rate limiter of server.js\<close>

text \<open>
  \<open>rateLimitStore\<close> is a \<open>Map\<close> from the client address to the list of the times
  (milliseconds, \<open>Date.now()\<close>) of the requests let through. A lookup of an unknown
  key gives \<open>undefined\<close>, which the code replaces by the empty list.
\<close>

type_synonym rateLimitStore = "string \<rightharpoonup> int list"

definition windowMs :: int where
  "windowMs = 60 * 60 * 1000"

definition maxRequests :: nat where
  "maxRequests = 100"

text \<open>\<open>c.req.header("x-forwarded-for") || "unknown"\<close>: an absent and an empty header
  are both falsy.\<close>

definition clientIP :: "string option \<Rightarrow> string" where
  "clientIP h = (case h of None \<Rightarrow> ''unknown'' | Some v \<Rightarrow> if v = [] then ''unknown'' else v)"

definition clientRequests :: "rateLimitStore \<Rightarrow> string \<Rightarrow> int list" where
  "clientRequests store c = (case store c of None \<Rightarrow> [] | Some l \<Rightarrow> l)"

definition validRequests :: "rateLimitStore \<Rightarrow> string \<Rightarrow> int \<Rightarrow> int list" where
  "validRequests store c now = filter (\<lambda>time. now - time < windowMs) (clientRequests store c)"

definition rate_limit_exceeded :: "response" where
  "rate_limit_exceeded =
     json_response (ErrorMessage ''Rate limit exceeded'' ''Max 100 requests per hour'') 429"

text \<open>
  The middleware either answers itself (\<open>Some\<close> response, the store untouched) or
  records the request and calls \<open>next\<close> (\<open>None\<close>).
\<close>

definition customRateLimiter ::
  "rateLimitStore \<Rightarrow> string option \<Rightarrow> int \<Rightarrow> rateLimitStore \<times> response option" where
  "customRateLimiter store h now =
     (let c = clientIP h; valid = validRequests store c now
      in if length valid \<ge> maxRequests then (store, Some rate_limit_exceeded)
         else (store(c \<mapsto> valid @ [now]), None))"

text \<open>A sequence of checks, each a header value and the clock reading of the check;
  the outcome of each check is kept with the client it was made for.\<close>

fun run_checks ::
  "rateLimitStore \<Rightarrow> (string option \<times> int) list \<Rightarrow> rateLimitStore \<times> (string \<times> response option) list" where
  "run_checks store [] = (store, [])"
| "run_checks store ((h, now) # rest) =
     (let (store', r) = customRateLimiter store h now;
          (store'', rs) = run_checks store' rest
      in (store'', (clientIP h, r) # rs))"

definition times_of :: "string \<Rightarrow> (string option \<times> int) list \<Rightarrow> int list" where
  "times_of c calls = map snd (filter (\<lambda>(h, t). clientIP h = c) calls)"

definition outcomes_of :: "string \<Rightarrow> (string \<times> response option) list \<Rightarrow> response option list" where
  "outcomes_of c rs = map snd (filter (\<lambda>(c', r). c' = c) rs)"

text \<open>
  What every store reachable from the empty \<open>Map\<close> satisfies when the clock does not
  run backwards: no ledger is longer than the limit, and no entry lies in the future.
\<close>

definition ledger_inv :: "rateLimitStore \<Rightarrow> int \<Rightarrow> bool" where
  "ledger_inv store now =
     (\<forall>c. length (clientRequests store c) \<le> maxRequests \<and> (\<forall>t\<in>set (clientRequests store c). t \<le> now))"


text \<open>One client sending 101 requests, one second apart.\<close>

definition burst :: "(string option \<times> int) list" where
  "burst = map (\<lambda>i. (Some ''203.0.113.7'', 1000 * int i)) [0..<101]"


section \<open>Start-up of server.js\<close>

text \<open>
  \<open>process.env\<close> maps a variable to a string or to \<open>undefined\<close>. The configuration
  keeps the two secrets and the port (\<open>process.env.PORT || 3000\<close>: the variable's string
  when it is set and not empty, the number 3000 otherwise).
\<close>

record config =
  googleMapsApiKey :: "string option"
  apiSecret :: "string option"
  port :: json

datatype startup = Exit nat | Serving config

definition falsy_str :: "string option \<Rightarrow> bool" where
  "falsy_str v = (case v of None \<Rightarrow> True | Some s \<Rightarrow> s = [])"

definition read_config :: "(string \<rightharpoonup> string) \<Rightarrow> config" where
  "read_config env =
     \<lparr>googleMapsApiKey = env ''GOOGLE_MAPS_API_KEY'',
      apiSecret = env ''API_SECRET'',
      port = (case env ''PORT'' of
                None \<Rightarrow> JNum 3000
              | Some p \<Rightarrow> if p = [] then JNum 3000 else JStr p)\<rparr>"

text \<open>The module body of server.js: two checks, each ending the process with
  \<open>process.exit(1)\<close>, before any route is registered and the server exported.\<close>

definition startup :: "(string \<rightharpoonup> string) \<Rightarrow> startup" where
  "startup env =
     (let cfg = read_config env
      in if falsy_str (googleMapsApiKey cfg) then Exit 1
         else if falsy_str (apiSecret cfg) then Exit 1
         else Serving cfg)"

text \<open>The earlier revision of server.js (the unnamed source file, lines 15 to 18) has
  the first check only.\<close>

definition startup_earlier :: "(string \<rightharpoonup> string) \<Rightarrow> startup" where
  "startup_earlier env =
     (let cfg = read_config env
      in if falsy_str (googleMapsApiKey cfg) then Exit 1
         else Serving cfg)"

section \<open>The provider client of server.js\<close>

text \<open>
  A call to the provider is an endpoint and the query parameters in the order they are
  set. The world outside is a function that answers such a call: the transport fails, or
  a response arrives with a status, a status text and a body (\<open>None\<close> when the body is
  not JSON). \<open>show_num\<close> is the runtime's conversion of a number to a string.
\<close>

type_synonym api_request = "string \<times> (string \<times> string) list"

datatype fetch_result =
    FetchFailed
  | HttpResponse nat string "api_data option"

record world =
  show_num :: "rat \<Rightarrow> string"
  net :: "api_request \<Rightarrow> fetch_result"

fun join_comma :: "string list \<Rightarrow> string" where
  "join_comma [] = []"
| "join_comma [s] = s"
| "join_comma (s # t # ss) = s @ '','' @ join_comma (t # ss)"

text \<open>\<open>String(v)\<close>, which a template literal and \<open>toString()\<close> apply: an array joins
  its elements with commas, \<open>null\<close> elements as empty strings.\<close>

fun to_str :: "(rat \<Rightarrow> string) \<Rightarrow> json \<Rightarrow> string" where
  "to_str sh JNull = ''null''"
| "to_str sh (JBool b) = (if b then ''true'' else ''false'')"
| "to_str sh (JNum n) = sh n"
| "to_str sh (JStr s) = s"
| "to_str sh (JArr xs) = join_comma (map (\<lambda>x. if x = JNull then [] else to_str sh x) xs)"
| "to_str sh (JObj kvs) = ''[object Object]''"

definition response_ok :: "nat \<Rightarrow> bool" where
  "response_ok st = (200 \<le> st \<and> st \<le> 299)"

definition str_or :: "string option \<Rightarrow> string \<Rightarrow> string" where
  "str_or a d = (case a of None \<Rightarrow> d | Some s \<Rightarrow> if s = [] then d else s)"

definition set_params :: "(rat \<Rightarrow> string) \<Rightarrow> (string \<times> json option) list \<Rightarrow> (string \<times> string) list" where
  "set_params sh params =
     concat (map (\<lambda>(k, v). case v of None \<Rightarrow> [] | Some JNull \<Rightarrow> [] | Some x \<Rightarrow> [(k, to_str sh x)]) params)"

text \<open>Every function that may call the provider returns the calls it made, in order,
  with its result; a thrown error is \<open>Inl\<close>.\<close>

definition callGoogleMapsAPI ::
  "world \<Rightarrow> config \<Rightarrow> string \<Rightarrow> (string \<times> json option) list \<Rightarrow> api_request list \<times> (exn + api_data)" where
  "callGoogleMapsAPI w cfg endpoint params =
     (let key = (case googleMapsApiKey cfg of None \<Rightarrow> ''undefined'' | Some k \<Rightarrow> k);
          req = (endpoint, (''key'', key) # set_params (show_num w) params)
      in ([req],
          case net w req of
            FetchFailed \<Rightarrow> Inl NetworkError
          | HttpResponse st st_text b \<Rightarrow>
              if \<not> response_ok st then Inl (HttpError st st_text)
              else (case b of
                      None \<Rightarrow> Inl SyntaxError
                    | Some data \<Rightarrow>
                        if api_status data \<noteq> Some ''OK'' \<and> api_status data \<noteq> Some ''ZERO_RESULTS''
                        then Inl (ApiStatusError (api_status data)
                                    (str_or (error_message data) ''Unknown error''))
                        else Inr data)))"

text \<open>\<open>geocodeLocation\<close> asks the provider for every address and turns every failure
  into \<open>null\<close>.\<close>

definition geocodeLocation :: "world \<Rightarrow> config \<Rightarrow> json \<Rightarrow> api_request list \<times> latlng option" where
  "geocodeLocation w cfg address =
     (let (calls, r) = callGoogleMapsAPI w cfg ''geocode/json'' [(''address'', Some address)]
      in (calls,
          case r of
            Inl e \<Rightarrow> None
          | Inr data \<Rightarrow>
              (case results data of
                 None \<Rightarrow> None
               | Some [] \<Rightarrow> None
               | Some (first # _) \<Rightarrow>
                   (case geometry first of None \<Rightarrow> None | Some g \<Rightarrow> location g))))"

definition searchPlaces ::
  "world \<Rightarrow> config \<Rightarrow> json \<Rightarrow> json option \<Rightarrow> json \<Rightarrow> json option \<Rightarrow>
     api_request list \<times> (exn + raw_place list)" where
  "searchPlaces w cfg query loc radius placeType =
     (let (calls1, locationBias) =
            (case loc of
               None \<Rightarrow> ([], None)
             | Some l \<Rightarrow> if truthy (Some l) then geocodeLocation w cfg l else ([], None));
          (calls2, r) =
            (case locationBias of
               Some bias \<Rightarrow>
                 callGoogleMapsAPI w cfg ''place/nearbysearch/json''
                   ([(''location'', Some (JStr (show_num w (lat bias) @ '','' @ show_num w (lng bias)))),
                     (''radius'', Some radius),
                     (''keyword'', Some query)]
                    @ (if truthy placeType then [(''type'', placeType)] else []))
             | None \<Rightarrow>
                 callGoogleMapsAPI w cfg ''place/textsearch/json'' [(''query'', Some query)])
      in (calls1 @ calls2,
          case r of
            Inl e \<Rightarrow> Inl e
          | Inr data \<Rightarrow> Inr (case results data of None \<Rightarrow> [] | Some ps \<Rightarrow> ps)))"

definition getDirections ::
  "world \<Rightarrow> config \<Rightarrow> json \<Rightarrow> json \<Rightarrow> json \<Rightarrow> api_request list \<times> (exn + route list)" where
  "getDirections w cfg origin destination mode =
     (let (calls, r) =
            callGoogleMapsAPI w cfg ''directions/json''
              [(''origin'', Some origin), (''destination'', Some destination),
               (''mode'', Some mode), (''departure_time'', Some (JStr ''now''))]
      in (calls,
          case r of
            Inl e \<Rightarrow> Inl e
          | Inr data \<Rightarrow> Inr (case routes data of None \<Rightarrow> [] | Some rs \<Rightarrow> rs)))"

section \<open>The handlers of server.js\<close>

subsection \<open>Normalising the provider's places\<close>

definition num_or_null :: "rat option \<Rightarrow> rat option" where
  "num_or_null v = (case v of None \<Rightarrow> None | Some x \<Rightarrow> if x = 0 then None else Some x)"

definition normalize :: "raw_place \<Rightarrow> place" where
  "normalize p =
     \<lparr>out_name = str_or (name p) [],
      out_address = str_or (vicinity p) (str_or (formatted_address p) []),
      out_rating = num_or_null (rating p),
      out_price_level = num_or_null (price_level p),
      out_place_id = str_or (place_id p) [],
      out_location =
        (case geometry p of
           None \<Rightarrow> \<lparr>lat = 0, lng = 0\<rparr>
         | Some g \<Rightarrow> (case location g of None \<Rightarrow> \<lparr>lat = 0, lng = 0\<rparr> | Some l \<Rightarrow> l)),
      out_types = (case types p of None \<Rightarrow> [] | Some ts \<Rightarrow> ts)\<rparr>"

definition processedPlaces :: "raw_place list \<Rightarrow> place list" where
  "processedPlaces ps = map normalize (take 10 ps)"

definition totalLat :: "place list \<Rightarrow> rat" where
  "totalLat ps = foldl (\<lambda>sum p. sum + lat (out_location p)) 0 ps"

definition totalLng :: "place list \<Rightarrow> rat" where
  "totalLng ps = foldl (\<lambda>sum p. sum + lng (out_location p)) 0 ps"

definition search_result :: "raw_place list \<Rightarrow> search_payload" where
  "search_result ps =
     (let processed = processedPlaces ps
      in \<lparr>places = processed,
          center_lat = js_div (totalLat processed) (length processed),
          center_lng = js_div (totalLng processed) (length processed),
          total_results = length ps\<rparr>)"

subsection \<open>POST /search-places\<close>

definition no_results_message :: "(rat \<Rightarrow> string) \<Rightarrow> json \<Rightarrow> json option \<Rightarrow> string" where
  "no_results_message sh query loc =
     ''No results for \"'' @ to_str sh query @ ''\"'' @
       (case loc of
          None \<Rightarrow> []
        | Some l \<Rightarrow> if truthy (Some l) then '' in '' @ to_str sh l else [])"

definition search_places_handler ::
  "world \<Rightarrow> config \<Rightarrow> json option \<Rightarrow> api_request list \<times> response" where
  "search_places_handler w cfg b =
     (case b of
        None \<Rightarrow> ([], json_response (ErrorThrown ''Search failed'' SyntaxError) 500)
      | Some JNull \<Rightarrow> ([], json_response (ErrorThrown ''Search failed'' TypeError) 500)
      | Some obj \<Rightarrow>
          (let query = field obj ''query'';
               loc = field obj ''location'';
               radius = (case field obj ''radius'' of None \<Rightarrow> JNum 2000 | Some r \<Rightarrow> r);
               type = field obj ''type''
           in case query of
                None \<Rightarrow> ([], json_response (ErrorOnly ''Query parameter is required'') 400)
              | Some q \<Rightarrow>
                  if \<not> truthy (Some q)
                  then ([], json_response (ErrorOnly ''Query parameter is required'') 400)
                  else (let (calls, r) = searchPlaces w cfg q loc radius type
                        in (calls,
                            case r of
                              Inl e \<Rightarrow> json_response (ErrorThrown ''Search failed'' e) 500
                            | Inr ps \<Rightarrow>
                                if length ps = 0
                                then json_response
                                       (ErrorMessage ''No places found''
                                          (no_results_message (show_num w) q loc)) 404
                                else json_response (SearchOk (search_result ps)) 200))))"

subsection \<open>POST /directions\<close>

definition directions_result :: "route \<Rightarrow> json \<Rightarrow> exn + directions_payload" where
  "directions_result r mode =
     (case legs r of
        None \<Rightarrow> Inl TypeError
      | Some [] \<Rightarrow> Inl TypeError
      | Some (l # _) \<Rightarrow>
          (case duration l of
             None \<Rightarrow> Inl TypeError
           | Some du \<Rightarrow>
               (case distance l of
                  None \<Rightarrow> Inl TypeError
                | Some di \<Rightarrow>
                    Inr \<lparr>directions = r,
                         dir_duration = text_value du,
                         dir_distance = text_value di,
                         dir_start_address = start_address l,
                         dir_end_address = end_address l,
                         dir_mode = mode\<rparr>)))"

definition directions_handler ::
  "world \<Rightarrow> config \<Rightarrow> json option \<Rightarrow> api_request list \<times> response" where
  "directions_handler w cfg b =
     (case b of
        None \<Rightarrow> ([], json_response (ErrorThrown ''Directions failed'' SyntaxError) 500)
      | Some JNull \<Rightarrow> ([], json_response (ErrorThrown ''Directions failed'' TypeError) 500)
      | Some obj \<Rightarrow>
          (let origin = field obj ''origin'';
               destination = field obj ''destination'';
               mode = (case field obj ''mode'' of None \<Rightarrow> JStr ''driving'' | Some m \<Rightarrow> m)
           in case (origin, destination) of
                (Some orig, Some dest) \<Rightarrow>
                  if \<not> truthy (Some orig) \<or> \<not> truthy (Some dest)
                  then ([], json_response (ErrorOnly ''Origin and destination are required'') 400)
                  else (let (calls, r) = getDirections w cfg orig dest mode
                        in (calls,
                            case r of
                              Inl e \<Rightarrow> json_response (ErrorThrown ''Directions failed'' e) 500
                            | Inr [] \<Rightarrow>
                                json_response
                                  (ErrorMessage ''No directions found''
                                     (''No route found from \"'' @ to_str (show_num w) orig @
                                      ''\" to \"'' @ to_str (show_num w) dest @ ''\"'')) 404
                            | Inr (first # _) \<Rightarrow>
                                (case directions_result first mode of
                                   Inl e \<Rightarrow> json_response (ErrorThrown ''Directions failed'' e) 500
                                 | Inr payload \<Rightarrow> json_response (DirectionsOk payload) 200)))
              | _ \<Rightarrow> ([], json_response (ErrorOnly ''Origin and destination are required'') 400)))"

section \<open>The application of server.js\<close>

record request =
  req_method :: string
  req_path :: string
  authorization :: "string option"
  x_forwarded_for :: "string option"
  req_body :: "json option"

text \<open>
  Modelled from the spec: \<open>cors\<close> of the framework, whose code is not among the
  sources. An OPTIONS preflight is answered with 204 and no body; any other request goes
  on to the next handler.
\<close>

definition cors :: "request \<Rightarrow> response option" where
  "cors r = (if req_method r = ''OPTIONS'' then Some \<lparr>status = 204, body = NoBody\<rparr> else None)"

text \<open>
  Modelled from the spec: \<open>bearerAuth\<close> of the framework, whose code is not among the
  sources. The bearer token of the request is compared with the one static secret; a
  missing or different token is answered with 401, an equal one goes on to the next
  handler.
\<close>

definition bearerAuth :: "string option \<Rightarrow> request \<Rightarrow> response option" where
  "bearerAuth token r =
     (case token of
        None \<Rightarrow> Some \<lparr>status = 401, body = MiddlewareBody\<rparr>
      | Some secret \<Rightarrow>
          if authorization r = Some (''Bearer '' @ secret) then None
          else Some \<lparr>status = 401, body = MiddlewareBody\<rparr>)"

definition protected :: "string \<Rightarrow> bool" where
  "protected p = (p = ''/search-places'' \<or> p = ''/directions'')"

definition health :: response where
  "health = json_response Health 200"

definition not_found :: response where
  "not_found = \<lparr>status = 404, body = MiddlewareBody\<rparr>"

text \<open>
  The adapter reads the envelope and names the route to call, or answers itself.
\<close>

definition llm_endpoint :: "json option \<Rightarrow> response + (string \<times> json)" where
  "llm_endpoint b =
     (case b of
        None \<Rightarrow> Inl (json_response (ErrorThrown ''Function call failed'' SyntaxError) 500)
      | Some JNull \<Rightarrow> Inl (json_response (ErrorThrown ''Function call failed'' TypeError) 500)
      | Some obj \<Rightarrow>
          (let functionName = field obj ''function_name'';
               parameters = (case field obj ''parameters'' of None \<Rightarrow> JObj [] | Some p \<Rightarrow> p)
           in if functionName = Some (JStr ''search_places'') then Inr (''/search-places'', parameters)
              else if functionName = Some (JStr ''get_directions'') then Inr (''/directions'', parameters)
              else Inl (json_response (ErrorOnly ''Unknown function name'') 400)))"

text \<open>
  \<open>app.fetch\<close>: the handlers registered for the request's method and path run in the
  order of their registration (\<open>cors\<close> on every path; the health check; \<open>bearerAuth\<close>
  and then \<open>customRateLimiter\<close> on the two protected paths, for every method; the three
  POST routes), each one answering or passing on, and a request nobody answers gets the
  framework's 404. \<open>now\<close> is the clock reading of the rate limiter. The adapter calls
  \<open>app.fetch\<close> again, with a new POST request for the route it names, carrying the
  headers of the request it serves and the parameters as the body. The result is the
  store, the provider calls made and the response.
\<close>

function app_fetch ::
  "world \<Rightarrow> config \<Rightarrow> rateLimitStore \<Rightarrow> int \<Rightarrow> request \<Rightarrow>
     rateLimitStore \<times> api_request list \<times> response" where
  "app_fetch w cfg store now r =
     (case cors r of
        Some resp \<Rightarrow> (store, [], resp)
      | None \<Rightarrow>
          if req_method r = ''GET'' \<and> req_path r = ''/health'' then (store, [], health)
          else
            (case (if protected (req_path r) then bearerAuth (apiSecret cfg) r else None) of
               Some resp \<Rightarrow> (store, [], resp)
             | None \<Rightarrow>
                 (case (if protected (req_path r)
                        then customRateLimiter store (x_forwarded_for r) now
                        else (store, None)) of
                    (store', Some resp) \<Rightarrow> (store', [], resp)
                  | (store', None) \<Rightarrow>
                      if req_method r = ''POST'' \<and> req_path r = ''/search-places''
                      then (let (calls, resp) = search_places_handler w cfg (req_body r)
                            in (store', calls, resp))
                      else if req_method r = ''POST'' \<and> req_path r = ''/directions''
                      then (let (calls, resp) = directions_handler w cfg (req_body r)
                            in (store', calls, resp))
                      else if req_method r = ''POST'' \<and> req_path r = ''/llm-function''
                      then (case llm_endpoint (req_body r) of
                              Inl resp \<Rightarrow> (store', [], resp)
                            | Inr (endpoint, parameters) \<Rightarrow>
                                app_fetch w cfg store' now
                                  (r\<lparr>req_method := ''POST'', req_path := endpoint,
                                     req_body := Some parameters\<rparr>))
                      else (store', [], not_found))))"
  by pat_completeness auto
termination
proof (relation "measure (\<lambda>(w, cfg, store, now, r). if req_path r = ''/llm-function'' then 1 else 0)")
  show "wf (measure (\<lambda>(w, cfg, store, now, r). if req_path r = ''/llm-function'' then 1 else (0::nat)))"
    by simp
next
  fix w :: world and cfg :: config and store :: rateLimitStore and now :: int and r :: request
    and x :: "rateLimitStore \<times> response option" and store' y2 xb and z :: "string \<times> json"
    and endpoint parameters
  assume "llm_endpoint (req_body r) = Inr z" "(endpoint, parameters) = z"
    and "req_method r = ''POST'' \<and> req_path r = ''/llm-function''"
  then have "endpoint = ''/search-places'' \<or> endpoint = ''/directions''"
    by (auto simp add: llm_endpoint_def Let_def split: option.splits json.splits if_splits)
  then show "((w, cfg, store', now, r\<lparr>req_method := ''POST'', req_path := endpoint, req_body := Some parameters\<rparr>),
              (w, cfg, store, now, r))
             \<in> measure (\<lambda>(w, cfg, store, now, r). if req_path r = ''/llm-function'' then 1 else 0)"
    using \<open>req_method r = ''POST'' \<and> req_path r = ''/llm-function''\<close> by auto
qed

declare app_fetch.simps [simp del]

subsection \<open>The adapter of the earlier revision\<close>

text \<open>
  In the earlier revision of server.js (the unnamed source file, lines 345 to 389) each
  dispatching branch first assigns \<open>c.req = {...c.req, json: ...}\<close> and then reads the
  headers of the new request from \<open>c.req.header()\<close>. The framework's code is not among
  the sources; two facts of it decide what happens. Where the context offers \<open>req\<close>
  through a getter only, the assignment throws a \<open>TypeError\<close> (a module is strict code);
  \<open>req_writable\<close> says whether it can be assigned. Where it can, \<open>c.req\<close> now is the
  copy made by the object spread, which has the own properties of the request and no
  method of its class, \<open>header\<close> among them: calling it throws a \<open>TypeError\<close>.
\<close>

datatype ctx_req = FrameworkRequest | SpreadCopy

definition assign_req :: "bool \<Rightarrow> exn + ctx_req" where
  "assign_req req_writable = (if req_writable then Inr SpreadCopy else Inl TypeError)"

fun req_header :: "ctx_req \<Rightarrow> request \<Rightarrow> exn + (string option \<times> string option)" where
  "req_header FrameworkRequest r = Inr (authorization r, x_forwarded_for r)"
| "req_header SpreadCopy r = Inl TypeError"

text \<open>
  The handler, with the application's \<open>fetch\<close> as a parameter: it answers itself
  (\<open>Inl\<close>) or returns what \<open>fetch\<close> gives for the request it builds (\<open>Inr\<close>). Every
  error is caught and answered with 500.
\<close>

definition redirect_earlier ::
  "bool \<Rightarrow> (request \<Rightarrow> 'a) \<Rightarrow> request \<Rightarrow> string \<Rightarrow> json \<Rightarrow> response + 'a" where
  "redirect_earlier req_writable fetch r endpoint parameters =
     (case assign_req req_writable of
        Inl e \<Rightarrow> Inl (json_response (ErrorThrown ''Function call failed'' e) 500)
      | Inr c_req \<Rightarrow>
          (case req_header c_req r of
             Inl e \<Rightarrow> Inl (json_response (ErrorThrown ''Function call failed'' e) 500)
           | Inr (auth, forwarded) \<Rightarrow>
               Inr (fetch \<lparr>req_method = ''POST'', req_path = endpoint, authorization = auth,
                          x_forwarded_for = forwarded, req_body = Some parameters\<rparr>)))"

definition llm_function_earlier ::
  "bool \<Rightarrow> (request \<Rightarrow> 'a) \<Rightarrow> request \<Rightarrow> response + 'a" where
  "llm_function_earlier req_writable fetch r =
     (case req_body r of
        None \<Rightarrow> Inl (json_response (ErrorThrown ''Function call failed'' SyntaxError) 500)
      | Some JNull \<Rightarrow> Inl (json_response (ErrorThrown ''Function call failed'' TypeError) 500)
      | Some obj \<Rightarrow>
          (let functionName = field obj ''function_name'';
               parameters = (case field obj ''parameters'' of None \<Rightarrow> JObj [] | Some p \<Rightarrow> p)
           in if functionName = Some (JStr ''search_places'')
              then redirect_earlier req_writable fetch r ''/search-places'' parameters
              else if functionName = Some (JStr ''get_directions'')
              then redirect_earlier req_writable fetch r ''/directions'' parameters
              else Inl (json_response (ErrorOnly ''Unknown function name'') 400)))"

section \<open>The geocoder of index.js\<close>

subsection \<open>Regular expressions\<close>

text \<open>
  The pattern language the geocoder needs: a literal character, a digit (\<open>\d\<close>),
  sequence, option (\<open>?\<close>), and the two repetitions (\<open>*\<close>, \<open>+\<close>). A pattern between
  \<open>^\<close> and \<open>$\<close> is tested against the whole string; the test is run by derivatives.
\<close>

datatype rexp =
    Zero
  | One
  | Lit char
  | Digit
  | Alt rexp rexp
  | Seq rexp rexp
  | Star rexp

definition Opt :: "rexp \<Rightarrow> rexp" where
  "Opt r = Alt r One"

definition Plus :: "rexp \<Rightarrow> rexp" where
  "Plus r = Seq r (Star r)"

definition is_digit :: "char \<Rightarrow> bool" where
  "is_digit c = (c \<in> set ''0123456789'')"

fun nullable :: "rexp \<Rightarrow> bool" where
  "nullable Zero = False"
| "nullable One = True"
| "nullable (Lit c) = False"
| "nullable Digit = False"
| "nullable (Alt r s) = (nullable r \<or> nullable s)"
| "nullable (Seq r s) = (nullable r \<and> nullable s)"
| "nullable (Star r) = True"

fun deriv :: "char \<Rightarrow> rexp \<Rightarrow> rexp" where
  "deriv c Zero = Zero"
| "deriv c One = Zero"
| "deriv c (Lit d) = (if c = d then One else Zero)"
| "deriv c Digit = (if is_digit c then One else Zero)"
| "deriv c (Alt r s) = Alt (deriv c r) (deriv c s)"
| "deriv c (Seq r s) =
     (if nullable r then Alt (Seq (deriv c r) s) (deriv c s) else Seq (deriv c r) s)"
| "deriv c (Star r) = Seq (deriv c r) (Star r)"

fun test :: "rexp \<Rightarrow> string \<Rightarrow> bool" where
  "test r [] = nullable r"
| "test r (c # cs) = test (deriv c r) cs"

text \<open>The strings a pattern stands for.\<close>

definition conc :: "string set \<Rightarrow> string set \<Rightarrow> string set" where
  "conc A B = {u @ v | u v. u \<in> A \<and> v \<in> B}"

inductive_set star :: "string set \<Rightarrow> string set" for A :: "string set" where
  star_nil: "[] \<in> star A"
| star_app: "u \<in> A \<Longrightarrow> v \<in> star A \<Longrightarrow> u @ v \<in> star A"

fun lang :: "rexp \<Rightarrow> string set" where
  "lang Zero = {}"
| "lang One = {[]}"
| "lang (Lit c) = {[c]}"
| "lang Digit = {[c] | c. is_digit c}"
| "lang (Alt r s) = lang r \<union> lang s"
| "lang (Seq r s) = conc (lang r) (lang s)"
| "lang (Star r) = star (lang r)"

text \<open>\<open>-?\d+\.?\d*\<close>, and \<open>/^-?\d+\.?\d*,-?\d+\.?\d*$/\<close>.\<close>

definition number_pattern :: rexp where
  "number_pattern =
     Seq (Opt (Lit (CHR ''-''))) (Seq (Plus Digit) (Seq (Opt (Lit (CHR ''.''))) (Star Digit)))"

definition latlng_pattern :: rexp where
  "latlng_pattern = Seq number_pattern (Seq (Lit (CHR '','')) number_pattern)"

subsection \<open>geocode\<close>

text \<open>
  \<open>location\<close> comes from \<open>searchParams.get\<close>: a string, or \<open>null\<close> (\<open>None\<close>). The
  result is the calls made and the value returned, or the error thrown.
\<close>

definition geocode ::
  "world \<Rightarrow> string \<Rightarrow> string option \<Rightarrow> api_request list \<times> (exn + string option)" where
  "geocode w API_KEY loc =
     (case loc of
        None \<Rightarrow> ([], Inr None)
      | Some l \<Rightarrow>
          if l = [] \<or> test latlng_pattern l then ([], Inr (Some l))
          else
            (let req = (''geocode/json'', [(''address'', l), (''key'', API_KEY)])
             in ([req],
                 case net w req of
                   FetchFailed \<Rightarrow> Inl NetworkError
                 | HttpResponse st st_text None \<Rightarrow> Inl SyntaxError
                 | HttpResponse st st_text (Some data) \<Rightarrow>
                     if api_status data \<noteq> Some ''OK'' then Inl (GeocodingFailed l)
                     else (case results data of
                             None \<Rightarrow> Inl (GeocodingFailed l)
                           | Some [] \<Rightarrow> Inl (GeocodingFailed l)
                           | Some (first # _) \<Rightarrow>
                               (case geometry first of
                                  None \<Rightarrow> Inl TypeError
                                | Some g \<Rightarrow>
                                    (case location g of
                                       None \<Rightarrow> Inl TypeError
                                     | Some p \<Rightarrow>
                                         Inr (Some (show_num w (lat p) @ '','' @ show_num w (lng p)))))))))"

section \<open>Sample inputs\<close>

text \<open>A number-to-string conversion that is right on whole numbers.\<close>

fun show_nat :: "nat \<Rightarrow> string" where
  "show_nat n =
     (if n < 10 then [''0123456789'' ! n]
      else show_nat (n div 10) @ [''0123456789'' ! (n mod 10)])"

definition show_whole :: "rat \<Rightarrow> string" where
  "show_whole x = (if x < 0 then ''-'' @ show_nat (nat \<lfloor>- x\<rfloor>) else show_nat (nat \<lfloor>x\<rfloor>))"

definition place_at :: "rat \<Rightarrow> rat \<Rightarrow> raw_place" where
  "place_at y x =
     \<lparr>name = Some ''Cafe'', vicinity = Some ''1 Main St'', formatted_address = None,
      rating = Some 4, price_level = Some 0, place_id = Some ''abc'',
      geometry = Some \<lparr>location = Some \<lparr>lat = y, lng = x\<rparr>\<rparr>,
      types = Some [''cafe'']\<rparr>"

text \<open>Eleven places: ten at (0, 0) and one at (11, 22).\<close>

definition eleven_places :: "raw_place list" where
  "eleven_places = replicate 10 (place_at 0 0) @ [place_at 11 22]"

definition found :: "raw_place list \<Rightarrow> fetch_result" where
  "found ps =
     HttpResponse 200 ''OK''
       (Some \<lparr>api_status = Some (if ps = [] then ''ZERO_RESULTS'' else ''OK''),
              error_message = None, results = Some ps, routes = None\<rparr>)"

text \<open>A provider that finds nothing, and one that finds the eleven places.\<close>

definition quiet_world :: world where
  "quiet_world = \<lparr>show_num = show_whole, net = (\<lambda>req. found [])\<rparr>"

definition busy_world :: world where
  "busy_world = \<lparr>show_num = show_whole, net = (\<lambda>req. found eleven_places)\<rparr>"

definition sample_config :: config where
  "sample_config = \<lparr>googleMapsApiKey = Some ''key'', apiSecret = Some ''secret'', port = JNum 3000\<rparr>"

definition sample_request :: request where
  "sample_request =
     \<lparr>req_method = ''POST'', req_path = ''/search-places'', authorization = None,
      x_forwarded_for = Some ''203.0.113.7'',
      req_body = Some (JObj [(''query'', JStr ''coffee''), (''location'', JStr ''40.7128,-74.0060'')])\<rparr>"

text \<open>Further sample inputs: a place without any field, and a search request.\<close>

definition bare_place :: raw_place where
  "bare_place =
     \<lparr>name = None, vicinity = None, formatted_address = None, rating = None,
      price_level = None, place_id = None, geometry = None, types = None\<rparr>"

definition coffee_query :: json where
  "coffee_query = JObj [(''query'', JStr ''coffee''), (''location'', JStr ''40.7128,-74.0060'')]"

section \<open>Notions of the specification\<close>

text \<open>The arithmetic mean of the specification, \<open>sum / n\<close>.\<close>

definition arithmetic_mean :: "rat list \<Rightarrow> rat" where
  "arithmetic_mean xs = sum_list xs / of_nat (length xs)"

text \<open>
  A provider without results: every place search, nearby or by text, is answered with
  a 2xx response whose status is OK or ZERO_RESULTS and whose results are empty or
  missing.
\<close>

definition zero_results :: "world \<Rightarrow> bool" where
  "zero_results w =
     (\<forall>req. fst req = ''place/nearbysearch/json'' \<or> fst req = ''place/textsearch/json'' \<longrightarrow>
        (\<exists>st st_text data. net w req = HttpResponse st st_text (Some data) \<and> response_ok st \<and>
           (api_status data = Some ''OK'' \<or> api_status data = Some ''ZERO_RESULTS'') \<and>
           (results data = None \<or> results data = Some [])))"

text \<open>A store in which the sample client has used up the limit, and a request with the
  right token.\<close>

definition full_store :: rateLimitStore where
  "full_store = [''203.0.113.7'' \<mapsto> replicate 100 0]"

definition authorized :: "request \<Rightarrow> request" where
  "authorized r = r\<lparr>authorization := Some ''Bearer secret''\<rparr>"

text \<open>A call of the adapter, without a token.\<close>

definition llm_request :: "string \<Rightarrow> request" where
  "llm_request fn =
     \<lparr>req_method = ''POST'', req_path = ''/llm-function'', authorization = None,
      x_forwarded_for = Some ''203.0.113.7'',
      req_body = Some (JObj [(''function_name'', JStr fn),
                             (''parameters'', JObj [(''query'', JStr ''coffee'')])])\<rparr>"


section \<open>Properties of the rate limiter\<close>

lemma limiter_other_client:
  "clientIP h \<noteq> c \<Longrightarrow> clientRequests (fst (customRateLimiter store h now)) c = clientRequests store c"
  by (simp add: customRateLimiter_def Let_def clientRequests_def)

lemma upt_shift: "map f [0..<Suc n] = f 0 # map (\<lambda>i. f (Suc i)) [0..<n]"
  by (simp add: upt_conv_Cons map_Suc_upt [symmetric] del: upt_Suc)

lemma live_ledger_outcomes:
  "\<lbrakk>\<forall>x\<in>set (clientRequests store c). \<forall>t\<in>set (times_of c calls). t - x < windowMs;
    \<forall>t\<in>set (times_of c calls). \<forall>t'\<in>set (times_of c calls). t' - t < windowMs\<rbrakk>
   \<Longrightarrow> outcomes_of c (snd (run_checks store calls)) =
       map (\<lambda>i. if length (clientRequests store c) + i < maxRequests then None else Some rate_limit_exceeded)
         [0..<length (times_of c calls)]"
proof (induction calls arbitrary: store)
  case Nil
  then show ?case by (simp add: outcomes_of_def times_of_def)
next
  case (Cons call calls)
  obtain h now where call: "call = (h, now)" by (cases call)
  obtain store' r where step: "customRateLimiter store h now = (store', r)"
    by (cases "customRateLimiter store h now")
  obtain store'' rs where rest: "run_checks store' calls = (store'', rs)"
    by (cases "run_checks store' calls")
  show ?case
  proof (cases "clientIP h = c")
    case False
    have same: "clientRequests store' c = clientRequests store c"
      using limiter_other_client [OF False, of store now] step by simp
    have tm: "times_of c ((h, now) # calls) = times_of c calls"
      using False by (simp add: times_of_def)
    have "outcomes_of c (snd (run_checks store' calls)) =
       map (\<lambda>i. if length (clientRequests store' c) + i < maxRequests then None else Some rate_limit_exceeded)
         [0..<length (times_of c calls)]"
      using Cons.prems unfolding call by (intro Cons.IH) (simp_all add: same tm)
    then show ?thesis
      using False by (simp add: call step rest outcomes_of_def tm same)
  next
    case True
    have tm: "times_of c ((h, now) # calls) = now # times_of c calls"
      using True by (simp add: times_of_def)
    have valid: "validRequests store c now = clientRequests store c"
      using Cons.prems(1) unfolding call by (simp add: validRequests_def tm)
    show ?thesis
    proof (cases "length (clientRequests store c) \<ge> maxRequests")
      case full: True
      have st: "store' = store" "r = Some rate_limit_exceeded"
        using step full True by (simp_all add: customRateLimiter_def Let_def valid)
      have "outcomes_of c (snd (run_checks store calls)) =
         map (\<lambda>i. if length (clientRequests store c) + i < maxRequests then None else Some rate_limit_exceeded)
           [0..<length (times_of c calls)]"
        using Cons.prems unfolding call by (intro Cons.IH) (simp_all add: tm)
      then show ?thesis
        using full True rest st
        by (simp add: call step outcomes_of_def tm upt_shift del: upt_Suc)
    next
      case room: False
      have st: "store' = store(c \<mapsto> clientRequests store c @ [now])" "r = None"
        using step room True by (simp_all add: customRateLimiter_def Let_def valid)
      have led: "clientRequests store' c = clientRequests store c @ [now]"
        by (simp add: st clientRequests_def)
      have "outcomes_of c (snd (run_checks store' calls)) =
         map (\<lambda>i. if length (clientRequests store' c) + i < maxRequests then None else Some rate_limit_exceeded)
           [0..<length (times_of c calls)]"
        using Cons.prems unfolding call by (intro Cons.IH) (auto simp add: tm led)
      then show ?thesis
        using room True rest st(2)
        by (simp add: call step outcomes_of_def tm led upt_shift del: upt_Suc)
    qed
  qed
qed


text \<open>
  C1. Take any sequence of checks (of any clients) and a client \<open>c\<close> whose checks in it
  lie less than one hour apart from each other, and whose ledger holds no request from
  the hour before them. Then the first 100 checks of \<open>c\<close> call \<open>next\<close> and every
  later one, the 101st first, is answered with status 429.
\<close>

theorem rate_limit_window:
  assumes fresh: "\<forall>x\<in>set (clientRequests store c). \<forall>t\<in>set (times_of c calls). windowMs \<le> t - x"
    and window: "\<forall>t\<in>set (times_of c calls). \<forall>t'\<in>set (times_of c calls). t' - t < windowMs"
  shows "outcomes_of c (snd (run_checks store calls)) =
       map (\<lambda>i. if i < 100 then None else Some rate_limit_exceeded) [0..<length (times_of c calls)]
     \<and> status rate_limit_exceeded = 429"
  using assms
proof (induction calls arbitrary: store)
  case Nil
  then show ?case by (simp add: outcomes_of_def times_of_def rate_limit_exceeded_def json_response_def)
next
  case (Cons call calls)
  obtain h now where call: "call = (h, now)" by (cases call)
  obtain store' r where step: "customRateLimiter store h now = (store', r)"
    by (cases "customRateLimiter store h now")
  obtain store'' rs where rest: "run_checks store' calls = (store'', rs)"
    by (cases "run_checks store' calls")
  show ?case
  proof (cases "clientIP h = c")
    case False
    have same: "clientRequests store' c = clientRequests store c"
      using limiter_other_client [OF False, of store now] step by simp
    have tm: "times_of c ((h, now) # calls) = times_of c calls"
      using False by (simp add: times_of_def)
    have "outcomes_of c (snd (run_checks store' calls)) =
       map (\<lambda>i. if i < 100 then None else Some rate_limit_exceeded) [0..<length (times_of c calls)]
     \<and> status rate_limit_exceeded = 429"
      using Cons.prems unfolding call by (intro Cons.IH) (simp_all add: same tm)
    then show ?thesis
      using False by (simp add: call step rest outcomes_of_def tm same)
  next
    case True
    have tm: "times_of c ((h, now) # calls) = now # times_of c calls"
      using True by (simp add: times_of_def)
    have valid: "validRequests store c now = []"
      using Cons.prems(1) unfolding call by (auto simp add: validRequests_def tm filter_empty_conv)
    have st: "store' = store(c \<mapsto> [now])" "r = None"
      using step True by (simp_all add: customRateLimiter_def Let_def valid maxRequests_def)
    have led: "clientRequests store' c = [now]"
      by (simp add: st clientRequests_def)
    have "outcomes_of c (snd (run_checks store' calls)) =
       map (\<lambda>i. if length (clientRequests store' c) + i < maxRequests then None else Some rate_limit_exceeded)
         [0..<length (times_of c calls)]"
      using Cons.prems(2) unfolding call by (intro live_ledger_outcomes) (auto simp add: tm led)
    then show ?thesis
      using True rest st(2)
      by (simp add: call step outcomes_of_def tm led upt_shift maxRequests_def
          rate_limit_exceeded_def json_response_def del: upt_Suc)
  qed
qed

lemma times_of_burst: "times_of ''203.0.113.7'' burst = map (\<lambda>i. 1000 * int i) [0..<101]"
  unfolding times_of_def burst_def
  by (simp add: filter_map comp_def clientIP_def del: upt_Suc)

theorem rate_limit_window_witness:
  "outcomes_of ''203.0.113.7'' (snd (run_checks Map.empty burst)) =
     replicate 100 None @ [Some rate_limit_exceeded]"
proof -
  have fresh: "\<forall>x\<in>set (clientRequests Map.empty ''203.0.113.7''). \<forall>t\<in>set (times_of ''203.0.113.7'' burst). windowMs \<le> t - x"
    by (simp add: clientRequests_def)
  have window: "\<forall>t\<in>set (times_of ''203.0.113.7'' burst). \<forall>t'\<in>set (times_of ''203.0.113.7'' burst). t' - t < windowMs"
    unfolding times_of_burst by (auto simp add: windowMs_def simp del: upt_Suc)
  have "[0..<Suc 100] = [0..<100] @ [100]"
    by (simp only: upt_Suc) simp
  then have "map (\<lambda>i. if i < 100 then None else Some rate_limit_exceeded) [0..<101] =
     replicate 100 None @ [Some rate_limit_exceeded]"
    by (simp add: map_replicate_trivial [symmetric] del: replicate.simps upt_Suc)
  then show ?thesis
    using rate_limit_window [OF fresh window] by (simp add: times_of_burst del: upt_Suc)
qed

lemma ledger_inv_empty: "ledger_inv Map.empty t0"
  by (simp add: ledger_inv_def clientRequests_def)

lemma ledger_inv_mono: "ledger_inv store t0 \<Longrightarrow> t0 \<le> now \<Longrightarrow> ledger_inv store now"
  by (fastforce simp add: ledger_inv_def)

lemma valid_all_when_full:
  assumes "length (clientRequests store c) \<le> maxRequests"
    and "maxRequests \<le> length (validRequests store c now)"
  shows "validRequests store c now = clientRequests store c"
proof -
  let ?P = "\<lambda>time. now - time < windowMs"
  have "length (filter ?P (clientRequests store c)) \<le> length (clientRequests store c)"
    by (rule length_filter_le)
  with assms have eq: "length (filter ?P (clientRequests store c)) = length (clientRequests store c)"
    unfolding validRequests_def by linarith
  have "\<forall>x\<in>set (clientRequests store c). ?P x"
  proof (rule ccontr)
    assume "\<not> (\<forall>x\<in>set (clientRequests store c). ?P x)"
    then obtain x where "x \<in> set (clientRequests store c)" "\<not> ?P x" by blast
    then have "length (filter ?P (clientRequests store c)) < length (clientRequests store c)"
      by (rule length_filter_less)
    with eq show False by simp
  qed
  then show ?thesis by (simp add: validRequests_def)
qed

lemma limiter_ledger:
  assumes "length (clientRequests store (clientIP h)) \<le> maxRequests"
  shows "clientRequests (fst (customRateLimiter store h now)) (clientIP h) =
           validRequests store (clientIP h) now @
             (if snd (customRateLimiter store h now) = None then [now] else [])"
proof (cases "maxRequests \<le> length (validRequests store (clientIP h) now)")
  case True
  then show ?thesis
    using valid_all_when_full [OF assms True]
    by (simp add: customRateLimiter_def Let_def)
next
  case False
  then show ?thesis
    by (simp add: customRateLimiter_def Let_def clientRequests_def)
qed

lemma limiter_keeps_inv:
  assumes inv: "ledger_inv store now"
  shows "ledger_inv (fst (customRateLimiter store h now)) now"
  unfolding ledger_inv_def
proof (intro allI)
  fix c
  let ?s = "fst (customRateLimiter store h now)"
  show "length (clientRequests ?s c) \<le> maxRequests \<and> (\<forall>t\<in>set (clientRequests ?s c). t \<le> now)"
  proof (cases "clientIP h = c")
    case False
    then show ?thesis using inv by (simp add: limiter_other_client ledger_inv_def)
  next
    case True
    have len: "length (clientRequests store (clientIP h)) \<le> maxRequests"
      using inv by (simp add: ledger_inv_def)
    have old: "\<forall>t\<in>set (clientRequests store (clientIP h)). t \<le> now"
      using inv by (simp add: ledger_inv_def)
    have "length (validRequests store (clientIP h) now @
             (if snd (customRateLimiter store h now) = None then [now] else [])) \<le> maxRequests"
    proof (cases "maxRequests \<le> length (validRequests store (clientIP h) now)")
      case full: True
      then show ?thesis
        using len valid_all_when_full [OF len full] by (simp add: customRateLimiter_def Let_def)
    next
      case False
      then show ?thesis by (simp add: customRateLimiter_def Let_def)
    qed
    moreover have "\<forall>t\<in>set (validRequests store (clientIP h) now @
             (if snd (customRateLimiter store h now) = None then [now] else [])). t \<le> now"
      using old by (auto simp add: validRequests_def)
    ultimately show ?thesis
      unfolding True [symmetric] limiter_ledger [OF len] by blast
  qed
qed

lemma run_checks_append:
  "fst (run_checks store (xs @ ys)) = fst (run_checks (fst (run_checks store xs)) ys)"
  by (induction xs arbitrary: store) (auto simp add: split_beta Let_def)

lemma run_checks_inv:
  "ledger_inv store t0 \<Longrightarrow> sorted (t0 # map snd calls) \<Longrightarrow>
   ledger_inv (fst (run_checks store calls)) (last (t0 # map snd calls))"
proof (induction calls arbitrary: store t0)
  case Nil
  then show ?case by simp
next
  case (Cons call calls)
  obtain h now where call: "call = (h, now)" by (cases call)
  have le: "t0 \<le> now" using Cons.prems(2) by (simp add: call)
  have "ledger_inv (fst (customRateLimiter store h now)) now"
    using limiter_keeps_inv ledger_inv_mono [OF Cons.prems(1) le] by blast
  moreover have "sorted (now # map snd calls)"
    using Cons.prems(2) by (simp add: call)
  ultimately have "ledger_inv (fst (run_checks (fst (customRateLimiter store h now)) calls))
       (last (now # map snd calls))"
    by (rule Cons.IH)
  then show ?case
    by (simp add: call split_beta Let_def)
qed


text \<open>
  C8. Start from the empty store and let the clock never run backwards. After any check,
  made at time \<open>now\<close>, the ledger stored for the checked client holds only times in
  \<open>(now - 1 hour, now]\<close>: it is the old ledger without the entries older than the
  window, followed by \<open>now\<close> when the request was let through.
\<close>

theorem ledger_within_window:
  assumes "sorted (map snd (calls @ [(h, now)]))"
  shows "(\<forall>t\<in>set (clientRequests (fst (run_checks Map.empty (calls @ [(h, now)]))) (clientIP h)).
            now - windowMs < t \<and> t \<le> now)
       \<and> clientRequests (fst (run_checks Map.empty (calls @ [(h, now)]))) (clientIP h) =
           validRequests (fst (run_checks Map.empty calls)) (clientIP h) now @
             (if snd (customRateLimiter (fst (run_checks Map.empty calls)) h now) = None then [now] else [])"
proof -
  let ?before = "fst (run_checks Map.empty calls)"
  have after: "fst (run_checks Map.empty (calls @ [(h, now)])) = fst (customRateLimiter ?before h now)"
    by (simp add: run_checks_append split_beta Let_def)
  have inv: "ledger_inv ?before now"
  proof (cases calls)
    case Nil
    then show ?thesis by (simp add: ledger_inv_empty)
  next
    case (Cons a list)
    have s: "sorted (snd a # map snd list)"
      using assms by (simp add: Cons sorted_append)
    have "\<forall>x\<in>set (snd a # map snd list). x \<le> now"
      using assms by (auto simp add: Cons sorted_append)
    moreover have "last (snd a # map snd list) \<in> set (snd a # map snd list)"
      by (rule last_in_set) simp
    ultimately have l: "last (snd a # map snd list) \<le> now" by blast
    have "ledger_inv (fst (run_checks Map.empty calls)) (last (snd a # map snd list))"
      unfolding Cons
      using run_checks_inv [OF ledger_inv_empty, of "snd a" "a # list"] s by simp
    then show ?thesis using l ledger_inv_mono by blast
  qed
  have len: "length (clientRequests ?before (clientIP h)) \<le> maxRequests"
    and old: "\<forall>t\<in>set (clientRequests ?before (clientIP h)). t \<le> now"
    using inv by (simp_all add: ledger_inv_def)
  have led: "clientRequests (fst (customRateLimiter ?before h now)) (clientIP h) =
           validRequests ?before (clientIP h) now @
             (if snd (customRateLimiter ?before h now) = None then [now] else [])"
    by (rule limiter_ledger [OF len])
  have "\<forall>t\<in>set (validRequests ?before (clientIP h) now). now - windowMs < t \<and> t \<le> now"
    using old by (auto simp add: validRequests_def)
  then show ?thesis
    unfolding after led by (auto simp add: windowMs_def)
qed

theorem ledger_within_window_witness:
  "clientRequests (fst (run_checks Map.empty ([(Some ''203.0.113.7'', 0), (None, 1000)] @ [(Some ''203.0.113.7'', 3600000)])))
      (clientIP (Some ''203.0.113.7'')) = [3600000]"
proof -
  have s: "sorted (map snd ([(Some ''203.0.113.7'', 0), (None, 1000)] @ [(Some ''203.0.113.7'', 3600000::int)]))"
    by simp
  show ?thesis
    using ledger_within_window [OF s]
    by (simp add: customRateLimiter_def validRequests_def clientRequests_def clientIP_def
        windowMs_def maxRequests_def Let_def)
qed

section \<open>Properties of the start-up\<close>

text \<open>
  The current server.js: when the provider key or the bearer secret is missing from the
  environment, it ends the process with exit code 1 and never gets to serve.
\<close>

theorem startup_fails_fast:
  assumes "env ''GOOGLE_MAPS_API_KEY'' = None \<or> env ''API_SECRET'' = None"
  shows "startup env = Exit 1 \<and> (\<forall>cfg. startup env \<noteq> Serving cfg)"
  using assms by (auto simp add: startup_def read_config_def falsy_str_def Let_def)

theorem startup_fails_fast_witness:
  "startup [''GOOGLE_MAPS_API_KEY'' \<mapsto> ''key''] = Exit 1"
proof -
  have "[''GOOGLE_MAPS_API_KEY'' \<mapsto> ''key''] ''GOOGLE_MAPS_API_KEY'' = None
      \<or> [''GOOGLE_MAPS_API_KEY'' \<mapsto> ''key''] ''API_SECRET'' = None"
    by simp
  from startup_fails_fast [OF this] show ?thesis by (rule conjunct1)
qed

text \<open>The server is exported exactly when both secrets are set and not empty.\<close>

lemma startup_serving_iff:
  "startup env = Serving cfg \<longleftrightarrow>
     cfg = read_config env \<and>
     (\<exists>k. env ''GOOGLE_MAPS_API_KEY'' = Some k \<and> k \<noteq> []) \<and>
     (\<exists>s. env ''API_SECRET'' = Some s \<and> s \<noteq> [])"
  by (auto simp add: startup_def read_config_def falsy_str_def Let_def split: option.splits)

text \<open>
  C9. At start-up, a missing provider key or a missing bearer secret must end the process
  with a non-zero exit before anything is served. The earlier revision of server.js does
  not: with the provider key set and \<open>API_SECRET\<close> absent it passes its one check and
  goes on to serve, the secret \<open>undefined\<close>.
\<close>

theorem startup_earlier_without_secret:
  "startup_earlier [''GOOGLE_MAPS_API_KEY'' \<mapsto> ''key''] =
     Serving \<lparr>googleMapsApiKey = Some ''key'', apiSecret = None, port = JNum 3000\<rparr>"
  by (simp add: startup_earlier_def read_config_def falsy_str_def Let_def)


section \<open>Properties of the normaliser\<close>

lemma length_processedPlaces: "length (processedPlaces ps) = min 10 (length ps)"
  by (simp add: processedPlaces_def min.commute)

lemma nth_processedPlaces:
  "i < length (processedPlaces ps) \<Longrightarrow> processedPlaces ps ! i = normalize (ps ! i)"
  by (simp add: processedPlaces_def)

lemma processedPlaces_nonempty: "ps \<noteq> [] \<Longrightarrow> processedPlaces ps \<noteq> []"
  by (simp add: processedPlaces_def)

lemma eleven_places_nonempty: "eleven_places \<noteq> []"
  by (simp add: eleven_places_def)

lemma length_eleven_places: "length eleven_places = 11"
  by (simp add: eleven_places_def)

text \<open>
  C6. The normaliser keeps the first ten records at most, in order, and fills each: the
  address is \<open>vicinity\<close>, else \<open>formatted_address\<close>, else the empty string; a missing
  rating or price level is \<open>null\<close>, a missing location is (0, 0); values that are
  present and not falsy are kept.
\<close>

theorem normalizer_defaults:
  "length (processedPlaces ps) \<le> 10 \<and>
   length (processedPlaces ps) = min 10 (length ps) \<and>
   (\<forall>i < length (processedPlaces ps).
      (vicinity (ps ! i) = None \<longrightarrow> formatted_address (ps ! i) = None \<longrightarrow>
         out_address (processedPlaces ps ! i) = []) \<and>
      (\<forall>a. vicinity (ps ! i) = None \<longrightarrow> formatted_address (ps ! i) = Some a \<longrightarrow>
         out_address (processedPlaces ps ! i) = a) \<and>
      (\<forall>v. vicinity (ps ! i) = Some v \<longrightarrow> v \<noteq> [] \<longrightarrow>
         out_address (processedPlaces ps ! i) = v) \<and>
      (rating (ps ! i) = None \<longrightarrow> out_rating (processedPlaces ps ! i) = None) \<and>
      (\<forall>x. rating (ps ! i) = Some x \<longrightarrow> x \<noteq> 0 \<longrightarrow> out_rating (processedPlaces ps ! i) = Some x) \<and>
      (price_level (ps ! i) = None \<longrightarrow> out_price_level (processedPlaces ps ! i) = None) \<and>
      (\<forall>x. price_level (ps ! i) = Some x \<longrightarrow> x \<noteq> 0 \<longrightarrow>
         out_price_level (processedPlaces ps ! i) = Some x) \<and>
      (geometry (ps ! i) = None \<longrightarrow> out_location (processedPlaces ps ! i) = \<lparr>lat = 0, lng = 0\<rparr>) \<and>
      (\<forall>g. geometry (ps ! i) = Some g \<longrightarrow> location g = None \<longrightarrow>
         out_location (processedPlaces ps ! i) = \<lparr>lat = 0, lng = 0\<rparr>) \<and>
      (\<forall>g l. geometry (ps ! i) = Some g \<longrightarrow> location g = Some l \<longrightarrow>
         out_location (processedPlaces ps ! i) = l))"
proof (intro conjI allI impI)
  show "length (processedPlaces ps) \<le> 10" by (simp add: length_processedPlaces)
  show "length (processedPlaces ps) = min 10 (length ps)" by (rule length_processedPlaces)
qed (simp_all add: nth_processedPlaces normalize_def str_or_def num_or_null_def)

theorem normalizer_defaults_witness:
  "length (processedPlaces (bare_place # eleven_places)) = 10 \<and>
   out_address (processedPlaces (bare_place # eleven_places) ! 0) = [] \<and>
   out_rating (processedPlaces (bare_place # eleven_places) ! 0) = None \<and>
   out_price_level (processedPlaces (bare_place # eleven_places) ! 0) = None \<and>
   out_location (processedPlaces (bare_place # eleven_places) ! 0) = \<lparr>lat = 0, lng = 0\<rparr>"
proof -
  let ?ps = "bare_place # eleven_places"
  have len: "length (processedPlaces ?ps) = 10"
    using normalizer_defaults [of ?ps] by (simp add: length_eleven_places)
  then have i: "0 < length (processedPlaces ?ps)" by simp
  have "vicinity (?ps ! 0) = None" "formatted_address (?ps ! 0) = None" "rating (?ps ! 0) = None"
    "price_level (?ps ! 0) = None" "geometry (?ps ! 0) = None"
    by (simp_all add: bare_place_def)
  then show ?thesis
    using normalizer_defaults [of ?ps] i len by blast
qed

text \<open>
  C10. A rating or a price level that the provider gives as 0 comes out as \<open>null\<close>:
  no normalised place of a search result carries a 0 in either field.
\<close>

theorem falsy_numbers_become_null:
  "\<forall>i < length (places (search_result ps)).
     (rating (ps ! i) = Some 0 \<longrightarrow> out_rating (places (search_result ps) ! i) = None) \<and>
     (price_level (ps ! i) = Some 0 \<longrightarrow> out_price_level (places (search_result ps) ! i) = None) \<and>
     out_rating (places (search_result ps) ! i) \<noteq> Some 0 \<and>
     out_price_level (places (search_result ps) ! i) \<noteq> Some 0"
  by (simp add: search_result_def Let_def nth_processedPlaces normalize_def num_or_null_def
      split: option.splits)

theorem falsy_numbers_become_null_witness:
  "out_price_level (places (search_result eleven_places) ! 0) = None"
proof -
  have "places (search_result eleven_places) = processedPlaces eleven_places"
    by (simp add: search_result_def Let_def)
  then have i: "0 < length (places (search_result eleven_places))"
    by (simp add: length_processedPlaces length_eleven_places)
  have "eleven_places ! 0 = place_at 0 0"
    by (simp add: eleven_places_def nth_append)
  then have "price_level (eleven_places ! 0) = Some 0"
    by (simp add: place_at_def)
  then show ?thesis
    using falsy_numbers_become_null [of eleven_places] i by blast
qed

section \<open>Properties of the search handler\<close>

lemma foldl_plus_sum_list: "foldl (\<lambda>s p. s + f p) a ps = a + sum_list (map f ps)"
  by (induction ps arbitrary: a) (simp_all add: add.assoc)

lemma totalLat_sum: "totalLat ps = sum_list (map (lat \<circ> out_location) ps)"
  by (simp add: totalLat_def foldl_plus_sum_list comp_def)

lemma totalLng_sum: "totalLng ps = sum_list (map (lng \<circ> out_location) ps)"
  by (simp add: totalLng_def foldl_plus_sum_list comp_def)

lemma center_of_nonempty:
  assumes "ps \<noteq> []"
  shows "center_lat (search_result ps) =
           Finite (arithmetic_mean (map (lat \<circ> out_location) (processedPlaces ps)))"
    and "center_lng (search_result ps) =
           Finite (arithmetic_mean (map (lng \<circ> out_location) (processedPlaces ps)))"
  using assms
  by (simp_all add: search_result_def Let_def js_div_def arithmetic_mean_def
      totalLat_sum totalLng_sum processedPlaces_nonempty)

lemma handler_on_results:
  assumes "obj \<noteq> JNull" and "field obj ''query'' = Some q" and "truthy (Some q)"
    and "searchPlaces w cfg q (field obj ''location'')
           (case field obj ''radius'' of None \<Rightarrow> JNum 2000 | Some r \<Rightarrow> r)
           (field obj ''type'') = (calls, Inr ps)"
  shows "search_places_handler w cfg (Some obj) =
           (calls,
            if ps = []
            then json_response (ErrorMessage ''No places found''
                   (no_results_message (show_num w) q (field obj ''location''))) 404
            else json_response (SearchOk (search_result ps)) 200)"
  using assms by (cases obj) (simp_all add: search_places_handler_def Let_def)

lemma searchPlaces_busy:
  "searchPlaces busy_world sample_config (JStr ''coffee'') None (JNum 2000) None =
     ([(''place/textsearch/json'', [(''key'', ''key''), (''query'', ''coffee'')])], Inr eleven_places)"
  by (simp add: searchPlaces_def callGoogleMapsAPI_def busy_world_def sample_config_def found_def
      set_params_def response_ok_def eleven_places_nonempty Let_def)

lemma take_ten_eleven: "take 10 eleven_places = replicate 10 (place_at 0 0)"
  by (simp add: eleven_places_def)

lemma location_place_at: "out_location (normalize (place_at y x)) = \<lparr>lat = y, lng = x\<rparr>"
  by (simp add: normalize_def place_at_def)

text \<open>
  C2, as the code has it. When the provider returns at least one record, the handler
  answers 200, and the centre it reports is the arithmetic mean of the coordinates of
  the places in the response: the first ten records at most, normalised (a record
  without a location counts as (0, 0)). Numbers are exact rationals here; the rounding
  of floating point arithmetic is not modelled.
\<close>

theorem center_is_mean_of_returned_places:
  assumes "obj \<noteq> JNull" and "field obj ''query'' = Some q" and "truthy (Some q)"
    and "searchPlaces w cfg q (field obj ''location'')
           (case field obj ''radius'' of None \<Rightarrow> JNum 2000 | Some r \<Rightarrow> r)
           (field obj ''type'') = (calls, Inr ps)"
    and "ps \<noteq> []"
  shows "\<exists>payload.
           search_places_handler w cfg (Some obj) = (calls, json_response (SearchOk payload) 200) \<and>
           places payload = map normalize (take 10 ps) \<and>
           places payload \<noteq> [] \<and>
           total_results payload = length ps \<and>
           center_lat payload = Finite (arithmetic_mean (map (lat \<circ> out_location) (places payload))) \<and>
           center_lng payload = Finite (arithmetic_mean (map (lng \<circ> out_location) (places payload)))"
proof (intro exI conjI)
  show "search_places_handler w cfg (Some obj) = (calls, json_response (SearchOk (search_result ps)) 200)"
    using handler_on_results [OF assms(1-4)] assms(5) by simp
  show "places (search_result ps) = map normalize (take 10 ps)"
    by (simp add: search_result_def Let_def processedPlaces_def)
  show "places (search_result ps) \<noteq> []"
    using assms(5) by (simp add: search_result_def Let_def processedPlaces_def)
  show "total_results (search_result ps) = length ps"
    by (simp add: search_result_def Let_def)
  have pl: "places (search_result ps) = processedPlaces ps"
    by (simp add: search_result_def Let_def)
  show "center_lat (search_result ps) =
      Finite (arithmetic_mean (map (lat \<circ> out_location) (places (search_result ps))))"
    unfolding pl by (rule center_of_nonempty(1) [OF assms(5)])
  show "center_lng (search_result ps) =
      Finite (arithmetic_mean (map (lng \<circ> out_location) (places (search_result ps))))"
    unfolding pl by (rule center_of_nonempty(2) [OF assms(5)])
qed

theorem center_is_mean_of_returned_places_witness:
  "\<exists>payload.
     search_places_handler busy_world sample_config (Some (JObj [(''query'', JStr ''coffee'')])) =
       ([(''place/textsearch/json'', [(''key'', ''key''), (''query'', ''coffee'')])],
        json_response (SearchOk payload) 200) \<and>
     places payload = map normalize (take 10 eleven_places) \<and>
     places payload \<noteq> [] \<and>
     total_results payload = length eleven_places \<and>
     center_lat payload = Finite (arithmetic_mean (map (lat \<circ> out_location) (places payload))) \<and>
     center_lng payload = Finite (arithmetic_mean (map (lng \<circ> out_location) (places payload)))"
proof -
  let ?obj = "JObj [(''query'', JStr ''coffee'')]"
  have 1: "?obj \<noteq> JNull" by simp
  have 2: "field ?obj ''query'' = Some (JStr ''coffee'')" by (simp add: field_def)
  have 3: "truthy (Some (JStr ''coffee''))" by simp
  have 4: "searchPlaces busy_world sample_config (JStr ''coffee'') (field ?obj ''location'')
           (case field ?obj ''radius'' of None \<Rightarrow> JNum 2000 | Some r \<Rightarrow> r)
           (field ?obj ''type'') =
         ([(''place/textsearch/json'', [(''key'', ''key''), (''query'', ''coffee'')])], Inr eleven_places)"
    by (simp add: field_def searchPlaces_busy)
  show ?thesis
    by (rule center_is_mean_of_returned_places [OF 1 2 3 4 eleven_places_nonempty])
qed

text \<open>
  C2, as the claim states it, fails: of eleven returned records, ten at (0, 0) and one
  at (11, 22), the mean is (1, 2), and the handler reports (0, 0) with
  \<open>total_results\<close> 11.
\<close>

theorem center_ignores_eleventh_counterexample:
  "center_lat (search_result eleven_places) = Finite 0 \<and>
   center_lng (search_result eleven_places) = Finite 0 \<and>
   total_results (search_result eleven_places) = 11 \<and>
   arithmetic_mean (map (lat \<circ> out_location \<circ> normalize) eleven_places) = 1 \<and>
   arithmetic_mean (map (lng \<circ> out_location \<circ> normalize) eleven_places) = 2"
proof -
  have "map (lat \<circ> out_location \<circ> normalize) eleven_places = replicate 10 0 @ [11]"
    "map (lng \<circ> out_location \<circ> normalize) eleven_places = replicate 10 0 @ [22]"
    by (simp_all add: eleven_places_def location_place_at)
  then have m: "arithmetic_mean (map (lat \<circ> out_location \<circ> normalize) eleven_places) = 1"
    "arithmetic_mean (map (lng \<circ> out_location \<circ> normalize) eleven_places) = 2"
    by (simp_all add: arithmetic_mean_def sum_list_replicate)
  have p: "processedPlaces eleven_places = replicate 10 (normalize (place_at 0 0))"
    by (simp add: processedPlaces_def take_ten_eleven)
  have "map (lat \<circ> out_location) (processedPlaces eleven_places) = replicate 10 0"
    "map (lng \<circ> out_location) (processedPlaces eleven_places) = replicate 10 0"
    unfolding p by (simp_all add: location_place_at)
  then have c: "center_lat (search_result eleven_places) = Finite 0"
    "center_lng (search_result eleven_places) = Finite 0"
    using center_of_nonempty [OF eleven_places_nonempty]
    by (simp_all add: arithmetic_mean_def sum_list_replicate)
  have "total_results (search_result eleven_places) = 11"
    by (simp add: search_result_def Let_def length_eleven_places)
  with m c show ?thesis by simp
qed

lemma call_with_zero_results:
  assumes "zero_results w" and "e = ''place/nearbysearch/json'' \<or> e = ''place/textsearch/json''"
  shows "\<exists>data. snd (callGoogleMapsAPI w cfg e params) = Inr data \<and>
           (results data = None \<or> results data = Some [])"
proof -
  define req where "req = (e, (''key'', case googleMapsApiKey cfg of None \<Rightarrow> ''undefined'' | Some k \<Rightarrow> k)
                    # set_params (show_num w) params)"
  have "fst req = ''place/nearbysearch/json'' \<or> fst req = ''place/textsearch/json''"
    using assms(2) by (simp add: req_def)
  with assms(1) obtain st st_text data where r: "net w req = HttpResponse st st_text (Some data)" "response_ok st"
     "api_status data = Some ''OK'' \<or> api_status data = Some ''ZERO_RESULTS''"
     "results data = None \<or> results data = Some []"
    unfolding zero_results_def by blast
  have "snd (callGoogleMapsAPI w cfg e params) =
          (case net w req of
            FetchFailed \<Rightarrow> Inl NetworkError
          | HttpResponse st st_text b \<Rightarrow>
              if \<not> response_ok st then Inl (HttpError st st_text)
              else (case b of
                      None \<Rightarrow> Inl SyntaxError
                    | Some data \<Rightarrow>
                        if api_status data \<noteq> Some ''OK'' \<and> api_status data \<noteq> Some ''ZERO_RESULTS''
                        then Inl (ApiStatusError (api_status data)
                                    (str_or (error_message data) ''Unknown error''))
                        else Inr data))"
    by (simp add: callGoogleMapsAPI_def Let_def req_def)
  also have "\<dots> = Inr data"
    using r(2,3) by (simp add: r(1))
  finally show ?thesis using r(4) by blast
qed

lemma searchPlaces_zero_results:
  assumes "zero_results w"
  shows "snd (searchPlaces w cfg q loc radius type) = Inr []"
proof -
  obtain calls1 bias where g:
    "(case loc of None \<Rightarrow> ([], None)
      | Some l \<Rightarrow> if truthy (Some l) then geocodeLocation w cfg l else ([], None)) = (calls1, bias)"
    by fastforce
  show ?thesis
  proof (cases bias)
    case None
    obtain data where "snd (callGoogleMapsAPI w cfg ''place/textsearch/json'' [(''query'', Some q)]) = Inr data"
      "results data = None \<or> results data = Some []"
      using call_with_zero_results [OF assms, of "''place/textsearch/json''"] by blast
    then show ?thesis
      using g None by (auto simp add: searchPlaces_def Let_def split_beta)
  next
    case (Some b)
    let ?params = "[(''location'', Some (JStr (show_num w (lat b) @ '','' @ show_num w (lng b)))),
                     (''radius'', Some radius), (''keyword'', Some q)]
                    @ (if truthy type then [(''type'', type)] else [])"
    obtain data where "snd (callGoogleMapsAPI w cfg ''place/nearbysearch/json'' ?params) = Inr data"
      "results data = None \<or> results data = Some []"
      using call_with_zero_results [OF assms, of "''place/nearbysearch/json''"] by blast
    then show ?thesis
      using g Some by (auto simp add: searchPlaces_def Let_def split_beta)
  qed
qed

lemma search_ok_nonempty:
  assumes "body (snd (search_places_handler w cfg b)) = SearchOk p"
  shows "places p \<noteq> [] \<and> center_lat p \<noteq> NaN \<and> center_lng p \<noteq> NaN"
proof -
  from assms obtain ps where ps: "ps \<noteq> []" "p = search_result ps"
    by (auto simp add: search_places_handler_def Let_def json_response_def split_beta
        split: option.splits json.splits if_splits sum.splits)
  have "places (search_result ps) = processedPlaces ps"
    by (simp add: search_result_def Let_def)
  moreover have "processedPlaces ps \<noteq> []"
    using ps(1) by (rule processedPlaces_nonempty)
  ultimately show ?thesis
    using center_of_nonempty [OF ps(1)] ps(2) by simp
qed

lemma zero_results_quiet: "zero_results quiet_world"
  by (simp add: zero_results_def quiet_world_def found_def response_ok_def)

text \<open>
  C4. A search with a query, for which the provider has no results, is answered with
  404 and a message that quotes the query and, when a location was given, the location.
  And a success body is only ever built from at least one record: its list of places is
  not empty and its centre is not \<open>NaN\<close>, so the count that divides is never zero.
\<close>

theorem zero_results_give_404:
  assumes "obj \<noteq> JNull" and "field obj ''query'' = Some q" and "truthy (Some q)"
    and "zero_results w"
  shows "snd (search_places_handler w cfg (Some obj)) =
           json_response
             (ErrorMessage ''No places found''
                (''No results for \"'' @ to_str (show_num w) q @ ''\"'' @
                 (if truthy (field obj ''location'')
                  then '' in '' @ to_str (show_num w) (the (field obj ''location''))
                  else []))) 404
       \<and> (\<forall>w' cfg' b p. body (snd (search_places_handler w' cfg' b)) = SearchOk p \<longrightarrow>
             places p \<noteq> [] \<and> center_lat p \<noteq> NaN \<and> center_lng p \<noteq> NaN)"
proof
  obtain calls where s: "searchPlaces w cfg q (field obj ''location'')
           (case field obj ''radius'' of None \<Rightarrow> JNum 2000 | Some r \<Rightarrow> r)
           (field obj ''type'') = (calls, Inr [])"
    using searchPlaces_zero_results [OF assms(4)] by (metis prod.collapse)
  have "no_results_message (show_num w) q (field obj ''location'') =
          ''No results for \"'' @ to_str (show_num w) q @ ''\"'' @
                 (if truthy (field obj ''location'')
                  then '' in '' @ to_str (show_num w) (the (field obj ''location''))
                  else [])"
    by (cases "field obj ''location''") (simp_all add: no_results_message_def)
  then show "snd (search_places_handler w cfg (Some obj)) =
           json_response
             (ErrorMessage ''No places found''
                (''No results for \"'' @ to_str (show_num w) q @ ''\"'' @
                 (if truthy (field obj ''location'')
                  then '' in '' @ to_str (show_num w) (the (field obj ''location''))
                  else []))) 404"
    using handler_on_results [OF assms(1-3) s] by simp
  show "\<forall>w' cfg' b p. body (snd (search_places_handler w' cfg' b)) = SearchOk p \<longrightarrow>
             places p \<noteq> [] \<and> center_lat p \<noteq> NaN \<and> center_lng p \<noteq> NaN"
    using search_ok_nonempty by blast
qed

theorem zero_results_give_404_witness:
  "snd (search_places_handler quiet_world sample_config (Some coffee_query)) =
     json_response
       (ErrorMessage ''No places found'' ''No results for \"coffee\" in 40.7128,-74.0060'') 404"
proof -
  have 1: "coffee_query \<noteq> JNull" by (simp add: coffee_query_def)
  have 2: "field coffee_query ''query'' = Some (JStr ''coffee'')"
    by (simp add: field_def coffee_query_def)
  have 3: "truthy (Some (JStr ''coffee''))" by simp
  have "field coffee_query ''location'' = Some (JStr ''40.7128,-74.0060'')"
    by (simp add: field_def coffee_query_def)
  then show ?thesis
    using zero_results_give_404 [OF 1 2 3 zero_results_quiet, of sample_config] by simp
qed

section \<open>Properties of the geocoders\<close>

text \<open>The test by derivatives decides membership in the language of the pattern.\<close>

lemma nil_in_conc: "[] \<in> conc A B \<longleftrightarrow> [] \<in> A \<and> [] \<in> B"
  by (auto simp add: conc_def)

lemma nullable_lang: "nullable r \<longleftrightarrow> [] \<in> lang r"
  by (induction r) (auto simp add: nil_in_conc intro: star.star_nil)

lemma cons_in_conc:
  "c # s \<in> conc A B \<longleftrightarrow>
     ([] \<in> A \<and> c # s \<in> B) \<or> (\<exists>u v. s = u @ v \<and> c # u \<in> A \<and> v \<in> B)"
proof
  assume "c # s \<in> conc A B"
  then obtain u v where uv: "c # s = u @ v" "u \<in> A" "v \<in> B"
    by (auto simp add: conc_def)
  show "([] \<in> A \<and> c # s \<in> B) \<or> (\<exists>u v. s = u @ v \<and> c # u \<in> A \<and> v \<in> B)"
  proof (cases u)
    case Nil
    then show ?thesis using uv by simp
  next
    case (Cons d u')
    then show ?thesis using uv by auto
  qed
next
  assume "([] \<in> A \<and> c # s \<in> B) \<or> (\<exists>u v. s = u @ v \<and> c # u \<in> A \<and> v \<in> B)"
  then show "c # s \<in> conc A B"
  proof
    assume "[] \<in> A \<and> c # s \<in> B"
    then have "[] @ (c # s) \<in> conc A B" unfolding conc_def by blast
    then show ?thesis by simp
  next
    assume "\<exists>u v. s = u @ v \<and> c # u \<in> A \<and> v \<in> B"
    then obtain u v where "s = u @ v" "c # u \<in> A" "v \<in> B" by blast
    then have "(c # u) @ v \<in> conc A B" unfolding conc_def by blast
    then show ?thesis using \<open>s = u @ v\<close> by simp
  qed
qed

lemma star_cons_split:
  "x \<in> star A \<Longrightarrow> x = c # s \<Longrightarrow> \<exists>u v. s = u @ v \<and> c # u \<in> A \<and> v \<in> star A"
proof (induction arbitrary: s rule: star.induct)
  case star_nil
  then show ?case by simp
next
  case (star_app u v)
  show ?case
  proof (cases u)
    case Nil
    then show ?thesis using star_app by simp
  next
    case (Cons d u')
    then have "s = u' @ v" "c # u' \<in> A" using star_app.prems star_app.hyps(1) by auto
    then show ?thesis using star_app.hyps(2) by blast
  qed
qed

lemma cons_in_star:
  "c # s \<in> star A \<longleftrightarrow> (\<exists>u v. s = u @ v \<and> c # u \<in> A \<and> v \<in> star A)"
proof
  assume "c # s \<in> star A"
  then show "\<exists>u v. s = u @ v \<and> c # u \<in> A \<and> v \<in> star A"
    by (rule star_cons_split) simp
next
  assume "\<exists>u v. s = u @ v \<and> c # u \<in> A \<and> v \<in> star A"
  then obtain u v where "s = u @ v" "c # u \<in> A" "v \<in> star A" by blast
  then have "(c # u) @ v \<in> star A" by (intro star.star_app)
  then show "c # s \<in> star A" using \<open>s = u @ v\<close> by simp
qed

lemma in_conc_deriv:
  assumes "\<And>u. u \<in> D \<longleftrightarrow> c # u \<in> A"
  shows "s \<in> conc D B \<longleftrightarrow> (\<exists>u v. s = u @ v \<and> c # u \<in> A \<and> v \<in> B)"
  unfolding conc_def using assms by blast

lemma lang_deriv: "s \<in> lang (deriv c r) \<longleftrightarrow> c # s \<in> lang r"
proof (induction r arbitrary: s)
  case (Seq r1 r2)
  have "s \<in> conc (lang (deriv c r1)) (lang r2) \<longleftrightarrow>
          (\<exists>u v. s = u @ v \<and> c # u \<in> lang r1 \<and> v \<in> lang r2)"
    by (rule in_conc_deriv) (rule Seq.IH(1))
  then show ?case
    by (simp add: cons_in_conc nullable_lang Seq.IH(2)) blast
next
  case (Star r)
  have "s \<in> conc (lang (deriv c r)) (star (lang r)) \<longleftrightarrow>
          (\<exists>u v. s = u @ v \<and> c # u \<in> lang r \<and> v \<in> star (lang r))"
    by (rule in_conc_deriv) (rule Star.IH)
  then show ?case
    by (simp add: cons_in_star)
qed auto

lemma test_lang: "test r s \<longleftrightarrow> s \<in> lang r"
  by (induction s arbitrary: r) (simp_all add: nullable_lang lang_deriv)

lemma sample_matches: "test latlng_pattern ''40.7128,-74.0060''"
  by code_simp

lemma sample_no_match: "\<not> test latlng_pattern ''Paris''"
  by code_simp

lemma geocodeLocation_calls:
  assumes "truthy (Some a)"
  shows "fst (geocodeLocation w cfg a) =
           [(''geocode/json'',
             [(''key'', case googleMapsApiKey cfg of None \<Rightarrow> ''undefined'' | Some k \<Rightarrow> k),
              (''address'', to_str (show_num w) a)])]"
  using assms
  by (cases a) (simp_all add: geocodeLocation_def callGoogleMapsAPI_def set_params_def Let_def split_beta)

text \<open>
  C3, as the code has it. \<open>geocode\<close> of index.js returns a location that matches the
  pattern, and the empty one, unchanged and without a call; for every other string it
  makes one call to the geocode endpoint. \<open>geocodeLocation\<close> of server.js has no such
  test: it calls the geocode endpoint for every address.
\<close>

theorem geocoder_pass_through:
  "(test latlng_pattern l \<longrightarrow> geocode w key (Some l) = ([], Inr (Some l))) \<and>
   (l = [] \<longrightarrow> geocode w key (Some l) = ([], Inr (Some l))) \<and>
   (l \<noteq> [] \<longrightarrow> \<not> test latlng_pattern l \<longrightarrow>
      fst (geocode w key (Some l)) = [(''geocode/json'', [(''address'', l), (''key'', key)])]) \<and>
   (truthy (Some a) \<longrightarrow> googleMapsApiKey cfg = Some k \<longrightarrow>
      fst (geocodeLocation w cfg a) =
        [(''geocode/json'', [(''key'', k), (''address'', to_str (show_num w) a)])])"
proof (intro conjI impI)
  assume "truthy (Some a)" and "googleMapsApiKey cfg = Some k"
  then show "fst (geocodeLocation w cfg a) =
        [(''geocode/json'', [(''key'', k), (''address'', to_str (show_num w) a)])]"
    by (simp add: geocodeLocation_calls)
qed (simp_all add: geocode_def Let_def)

theorem geocoder_pass_through_witness:
  "geocode quiet_world ''key'' (Some ''40.7128,-74.0060'') = ([], Inr (Some ''40.7128,-74.0060'')) \<and>
   fst (geocode quiet_world ''key'' (Some ''Paris'')) =
     [(''geocode/json'', [(''address'', ''Paris''), (''key'', ''key'')])] \<and>
   fst (geocodeLocation quiet_world sample_config (JStr ''Paris'')) =
     [(''geocode/json'', [(''key'', ''key''), (''address'', ''Paris'')])]"
proof -
  have "truthy (Some (JStr ''Paris''))" "googleMapsApiKey sample_config = Some ''key''" "''Paris'' \<noteq> []"
    by (simp_all add: sample_config_def)
  then show ?thesis
    using geocoder_pass_through [of "''40.7128,-74.0060''" quiet_world "''key''" "JStr ''Paris''" sample_config "''key''"]
      geocoder_pass_through [of "''Paris''" quiet_world "''key''" "JStr ''Paris''" sample_config "''key''"]
      sample_matches sample_no_match
    by simp
qed

text \<open>
  C3, as the claim states it, fails for the geocoder of server.js: the location
  \<open>40.7128,-74.0060\<close> matches the pattern, and \<open>geocodeLocation\<close> sends it to the
  geocode endpoint (and here, the provider finding nothing, returns \<open>null\<close>).
\<close>

theorem geocodeLocation_asks_counterexample:
  "test latlng_pattern ''40.7128,-74.0060'' \<and>
   geocodeLocation quiet_world sample_config (JStr ''40.7128,-74.0060'') =
     ([(''geocode/json'', [(''key'', ''key''), (''address'', ''40.7128,-74.0060'')])], None)"
proof
  show "test latlng_pattern ''40.7128,-74.0060''" by (rule sample_matches)
  show "geocodeLocation quiet_world sample_config (JStr ''40.7128,-74.0060'') =
     ([(''geocode/json'', [(''key'', ''key''), (''address'', ''40.7128,-74.0060'')])], None)"
    by (simp add: geocodeLocation_def callGoogleMapsAPI_def set_params_def quiet_world_def
        sample_config_def found_def response_ok_def Let_def)
qed

section \<open>Properties of the application\<close>

lemma protected_routes:
  assumes "protected (req_path r)" and "req_method r \<noteq> ''OPTIONS''"
  shows "app_fetch w cfg store now r =
     (case bearerAuth (apiSecret cfg) r of
        Some resp \<Rightarrow> (store, [], resp)
      | None \<Rightarrow>
          (case customRateLimiter store (x_forwarded_for r) now of
             (store', Some resp) \<Rightarrow> (store', [], resp)
           | (store', None) \<Rightarrow>
               if req_method r = ''POST'' \<and> req_path r = ''/search-places''
               then (store', search_places_handler w cfg (req_body r))
               else if req_method r = ''POST'' \<and> req_path r = ''/directions''
               then (store', directions_handler w cfg (req_body r))
               else (store', [], not_found)))"
proof -
  have p: "req_path r \<noteq> ''/health''" "req_path r \<noteq> ''/llm-function''"
    using assms(1) by (auto simp add: protected_def)
  show ?thesis
    by (subst app_fetch.simps)
      (auto simp add: cors_def assms p split_beta split: option.splits prod.splits)
qed

text \<open>The preflight of any path is answered by \<open>cors\<close>, before everything else.\<close>

lemma preflight_answered_by_cors:
  "req_method r = ''OPTIONS'' \<Longrightarrow>
   app_fetch w cfg store now r = (store, [], \<lparr>status = 204, body = NoBody\<rparr>)"
  by (subst app_fetch.simps) (simp add: cors_def)

text \<open>
  C5. On the two protected paths, for every method but the preflight and whatever the
  body: a request without the right bearer token gets 401, the store is left as it was
  and the provider is not called; a request with the right token that is over the limit
  gets 429, again whatever the body; and a request with the right token within the limit
  is entered in the ledger before the handler runs. So the order is authentication,
  rate limit, handler.
\<close>

theorem auth_before_rate_limit:
  assumes "protected (req_path r)" and "req_method r \<noteq> ''OPTIONS''"
    and "apiSecret cfg = Some secret"
  shows "(authorization r \<noteq> Some (''Bearer '' @ secret) \<longrightarrow>
            app_fetch w cfg store now r = (store, [], \<lparr>status = 401, body = MiddlewareBody\<rparr>)) \<and>
         (authorization r = Some (''Bearer '' @ secret) \<longrightarrow>
            maxRequests \<le> length (validRequests store (clientIP (x_forwarded_for r)) now) \<longrightarrow>
            app_fetch w cfg store now r = (store, [], rate_limit_exceeded)) \<and>
         (authorization r = Some (''Bearer '' @ secret) \<longrightarrow>
            length (validRequests store (clientIP (x_forwarded_for r)) now) < maxRequests \<longrightarrow>
            fst (app_fetch w cfg store now r) =
              store(clientIP (x_forwarded_for r) \<mapsto>
                      validRequests store (clientIP (x_forwarded_for r)) now @ [now]))"
  unfolding protected_routes [OF assms(1,2)]
  by (simp add: bearerAuth_def assms(3) customRateLimiter_def Let_def)

theorem auth_before_rate_limit_witness:
  "app_fetch busy_world sample_config Map.empty 5 sample_request =
     (Map.empty, [], \<lparr>status = 401, body = MiddlewareBody\<rparr>) \<and>
   app_fetch busy_world sample_config full_store 5 (authorized sample_request) =
     (full_store, [], rate_limit_exceeded) \<and>
   fst (app_fetch busy_world sample_config Map.empty 5 (authorized sample_request)) =
     [''203.0.113.7'' \<mapsto> [5]]"
proof -
  have p: "protected (req_path sample_request)" "req_method sample_request \<noteq> ''OPTIONS''"
    "protected (req_path (authorized sample_request))"
    "req_method (authorized sample_request) \<noteq> ''OPTIONS''"
    by (simp_all add: sample_request_def authorized_def protected_def)
  have c: "apiSecret sample_config = Some ''secret''"
    by (simp add: sample_config_def)
  have a: "authorization sample_request \<noteq> Some (''Bearer '' @ ''secret'')"
    "authorization (authorized sample_request) = Some (''Bearer '' @ ''secret'')"
    by (simp_all add: sample_request_def authorized_def)
  have x: "clientIP (x_forwarded_for (authorized sample_request)) = ''203.0.113.7''"
    by (simp add: sample_request_def authorized_def clientIP_def)
  have v: "validRequests full_store ''203.0.113.7'' 5 = replicate 100 0"
    "validRequests Map.empty ''203.0.113.7'' 5 = []"
    by (simp_all add: validRequests_def clientRequests_def full_store_def windowMs_def)
  have full: "maxRequests \<le> length (validRequests full_store (clientIP (x_forwarded_for (authorized sample_request))) 5)"
    and room: "length (validRequests Map.empty (clientIP (x_forwarded_for (authorized sample_request))) 5) < maxRequests"
    by (simp_all add: x v maxRequests_def)
  have 1: "app_fetch busy_world sample_config Map.empty 5 sample_request =
     (Map.empty, [], \<lparr>status = 401, body = MiddlewareBody\<rparr>)"
    using auth_before_rate_limit [OF p(1,2) c, of busy_world Map.empty 5] a(1) by blast
  have 2: "app_fetch busy_world sample_config full_store 5 (authorized sample_request) =
     (full_store, [], rate_limit_exceeded)"
    using auth_before_rate_limit [OF p(3,4) c, of busy_world full_store 5] a(2) full by blast
  have "fst (app_fetch busy_world sample_config Map.empty 5 (authorized sample_request)) =
     Map.empty(clientIP (x_forwarded_for (authorized sample_request)) \<mapsto>
                      validRequests Map.empty (clientIP (x_forwarded_for (authorized sample_request))) 5 @ [5])"
    using auth_before_rate_limit [OF p(3,4) c, of busy_world Map.empty 5] a(2) room by blast
  then have 3: "fst (app_fetch busy_world sample_config Map.empty 5 (authorized sample_request)) =
     [''203.0.113.7'' \<mapsto> [5]]"
    by (simp add: x v)
  from 1 2 3 show ?thesis by simp
qed

lemma llm_route:
  assumes "req_method r = ''POST''" and "req_path r = ''/llm-function''"
  shows "app_fetch w cfg store now r =
     (case llm_endpoint (req_body r) of
        Inl resp \<Rightarrow> (store, [], resp)
      | Inr (endpoint, parameters) \<Rightarrow>
          app_fetch w cfg store now
            \<lparr>req_method = ''POST'', req_path = endpoint, authorization = authorization r,
             x_forwarded_for = x_forwarded_for r, req_body = Some parameters\<rparr>)"
proof -
  have u: "r\<lparr>req_method := ''POST'', req_path := e, req_body := Some p\<rparr> =
      \<lparr>req_method = ''POST'', req_path = e, authorization = authorization r,
       x_forwarded_for = x_forwarded_for r, req_body = Some p\<rparr>" for e p
    by (cases r) simp
  show ?thesis
    by (subst app_fetch.simps)
      (simp add: cors_def assms protected_def u split: sum.splits prod.splits)
qed

lemma dispatched:
  assumes "e = ''/search-places'' \<or> e = ''/directions''" and "apiSecret cfg = Some secret"
  shows "app_fetch w cfg store now
           \<lparr>req_method = ''POST'', req_path = e, authorization = h, x_forwarded_for = x,
            req_body = b\<rparr> =
         (if h \<noteq> Some (''Bearer '' @ secret) then (store, [], \<lparr>status = 401, body = MiddlewareBody\<rparr>)
          else if maxRequests \<le> length (validRequests store (clientIP x) now)
          then (store, [], rate_limit_exceeded)
          else (store(clientIP x \<mapsto> validRequests store (clientIP x) now @ [now]),
                if e = ''/search-places'' then search_places_handler w cfg b
                else directions_handler w cfg b))"
proof -
  let ?r = "\<lparr>req_method = ''POST'', req_path = e, authorization = h, x_forwarded_for = x,
            req_body = b\<rparr>"
  have "protected (req_path ?r)" "req_method ?r \<noteq> ''OPTIONS''"
    using assms(1) by (auto simp add: protected_def)
  from protected_routes [OF this] show ?thesis
    using assms by (auto simp add: bearerAuth_def customRateLimiter_def Let_def)
qed

text \<open>
  The adapter of the current server.js. A POST to /llm-function with an envelope: for
  \<open>search_places\<close> and for
  \<open>get_directions\<close> the answer is that of the application to a POST on /search-places
  or /directions with the same \<open>Authorization\<close> (and forwarded-address) header and the
  parameters as the body, so that a wrong token gives 401 and a right one, within the
  limit, the answer of the handler on the parameters; any other name gives 400
  \<open>Unknown function name\<close>.
\<close>

theorem llm_function_dispatch:
  assumes "req_method r = ''POST''" and "req_path r = ''/llm-function''"
    and "req_body r = Some obj" and "obj \<noteq> JNull"
    and "parameters = (case field obj ''parameters'' of None \<Rightarrow> JObj [] | Some p \<Rightarrow> p)"
    and "apiSecret cfg = Some secret"
  shows "(field obj ''function_name'' = Some (JStr ''search_places'') \<longrightarrow>
            app_fetch w cfg store now r =
              app_fetch w cfg store now
                \<lparr>req_method = ''POST'', req_path = ''/search-places'',
                 authorization = authorization r, x_forwarded_for = x_forwarded_for r,
                 req_body = Some parameters\<rparr> \<and>
            (authorization r \<noteq> Some (''Bearer '' @ secret) \<longrightarrow>
               snd (snd (app_fetch w cfg store now r)) = \<lparr>status = 401, body = MiddlewareBody\<rparr>) \<and>
            (authorization r = Some (''Bearer '' @ secret) \<longrightarrow>
             length (validRequests store (clientIP (x_forwarded_for r)) now) < maxRequests \<longrightarrow>
               snd (app_fetch w cfg store now r) = search_places_handler w cfg (Some parameters))) \<and>
         (field obj ''function_name'' = Some (JStr ''get_directions'') \<longrightarrow>
            app_fetch w cfg store now r =
              app_fetch w cfg store now
                \<lparr>req_method = ''POST'', req_path = ''/directions'',
                 authorization = authorization r, x_forwarded_for = x_forwarded_for r,
                 req_body = Some parameters\<rparr> \<and>
            (authorization r \<noteq> Some (''Bearer '' @ secret) \<longrightarrow>
               snd (snd (app_fetch w cfg store now r)) = \<lparr>status = 401, body = MiddlewareBody\<rparr>) \<and>
            (authorization r = Some (''Bearer '' @ secret) \<longrightarrow>
             length (validRequests store (clientIP (x_forwarded_for r)) now) < maxRequests \<longrightarrow>
               snd (app_fetch w cfg store now r) = directions_handler w cfg (Some parameters))) \<and>
         (field obj ''function_name'' \<noteq> Some (JStr ''search_places'') \<longrightarrow>
          field obj ''function_name'' \<noteq> Some (JStr ''get_directions'') \<longrightarrow>
            app_fetch w cfg store now r =
              (store, [], json_response (ErrorOnly ''Unknown function name'') 400))"
proof -
  have e: "llm_endpoint (req_body r) =
      (if field obj ''function_name'' = Some (JStr ''search_places'') then Inr (''/search-places'', parameters)
       else if field obj ''function_name'' = Some (JStr ''get_directions'') then Inr (''/directions'', parameters)
       else Inl (json_response (ErrorOnly ''Unknown function name'') 400))"
    using assms(4) by (cases obj) (simp_all add: llm_endpoint_def assms(3,5) Let_def)
  have s: "app_fetch w cfg store now
           \<lparr>req_method = ''POST'', req_path = ''/search-places'', authorization = authorization r,
            x_forwarded_for = x_forwarded_for r, req_body = Some parameters\<rparr> =
         (if authorization r \<noteq> Some (''Bearer '' @ secret)
          then (store, [], \<lparr>status = 401, body = MiddlewareBody\<rparr>)
          else if maxRequests \<le> length (validRequests store (clientIP (x_forwarded_for r)) now)
          then (store, [], rate_limit_exceeded)
          else (store(clientIP (x_forwarded_for r) \<mapsto>
                  validRequests store (clientIP (x_forwarded_for r)) now @ [now]),
                search_places_handler w cfg (Some parameters)))"
    using dispatched [of "''/search-places''" cfg secret w store now] assms(6) by simp
  have d: "app_fetch w cfg store now
           \<lparr>req_method = ''POST'', req_path = ''/directions'', authorization = authorization r,
            x_forwarded_for = x_forwarded_for r, req_body = Some parameters\<rparr> =
         (if authorization r \<noteq> Some (''Bearer '' @ secret)
          then (store, [], \<lparr>status = 401, body = MiddlewareBody\<rparr>)
          else if maxRequests \<le> length (validRequests store (clientIP (x_forwarded_for r)) now)
          then (store, [], rate_limit_exceeded)
          else (store(clientIP (x_forwarded_for r) \<mapsto>
                  validRequests store (clientIP (x_forwarded_for r)) now @ [now]),
                directions_handler w cfg (Some parameters)))"
    using dispatched [of "''/directions''" cfg secret w store now] assms(6) by simp
  have sp: "field obj ''function_name'' = Some (JStr ''search_places'') \<Longrightarrow>
      app_fetch w cfg store now r =
        app_fetch w cfg store now
           \<lparr>req_method = ''POST'', req_path = ''/search-places'', authorization = authorization r,
            x_forwarded_for = x_forwarded_for r, req_body = Some parameters\<rparr>"
    by (simp add: llm_route [OF assms(1,2)] e)
  have gd: "field obj ''function_name'' = Some (JStr ''get_directions'') \<Longrightarrow>
      app_fetch w cfg store now r =
        app_fetch w cfg store now
           \<lparr>req_method = ''POST'', req_path = ''/directions'', authorization = authorization r,
            x_forwarded_for = x_forwarded_for r, req_body = Some parameters\<rparr>"
    by (simp add: llm_route [OF assms(1,2)] e)
  have un: "field obj ''function_name'' \<noteq> Some (JStr ''search_places'') \<Longrightarrow>
          field obj ''function_name'' \<noteq> Some (JStr ''get_directions'') \<Longrightarrow>
            app_fetch w cfg store now r =
              (store, [], json_response (ErrorOnly ''Unknown function name'') 400)"
    by (simp add: llm_route [OF assms(1,2)] e)
  show ?thesis
  proof (intro conjI impI)
    assume f: "field obj ''function_name'' = Some (JStr ''search_places'')"
    show "app_fetch w cfg store now r =
        app_fetch w cfg store now
           \<lparr>req_method = ''POST'', req_path = ''/search-places'', authorization = authorization r,
            x_forwarded_for = x_forwarded_for r, req_body = Some parameters\<rparr>"
      by (rule sp [OF f])
    show "snd (snd (app_fetch w cfg store now r)) = \<lparr>status = 401, body = MiddlewareBody\<rparr>"
      if "authorization r \<noteq> Some (''Bearer '' @ secret)"
      unfolding sp [OF f] s using that by simp
    show "snd (app_fetch w cfg store now r) = search_places_handler w cfg (Some parameters)"
      if "authorization r = Some (''Bearer '' @ secret)"
        and "length (validRequests store (clientIP (x_forwarded_for r)) now) < maxRequests"
      unfolding sp [OF f] s using that by simp
  next
    assume f: "field obj ''function_name'' = Some (JStr ''get_directions'')"
    show "app_fetch w cfg store now r =
        app_fetch w cfg store now
           \<lparr>req_method = ''POST'', req_path = ''/directions'', authorization = authorization r,
            x_forwarded_for = x_forwarded_for r, req_body = Some parameters\<rparr>"
      by (rule gd [OF f])
    show "snd (snd (app_fetch w cfg store now r)) = \<lparr>status = 401, body = MiddlewareBody\<rparr>"
      if "authorization r \<noteq> Some (''Bearer '' @ secret)"
      unfolding gd [OF f] d using that by simp
    show "snd (app_fetch w cfg store now r) = directions_handler w cfg (Some parameters)"
      if "authorization r = Some (''Bearer '' @ secret)"
        and "length (validRequests store (clientIP (x_forwarded_for r)) now) < maxRequests"
      unfolding gd [OF f] d using that by simp
  next
    show "app_fetch w cfg store now r =
              (store, [], json_response (ErrorOnly ''Unknown function name'') 400)"
      if "field obj ''function_name'' \<noteq> Some (JStr ''search_places'')"
        and "field obj ''function_name'' \<noteq> Some (JStr ''get_directions'')"
      using that by (rule un)
  qed
qed

lemma llm_request_facts:
  "req_method (llm_request fn) = ''POST''"
  "req_path (llm_request fn) = ''/llm-function''"
  "req_body (llm_request fn) =
     Some (JObj [(''function_name'', JStr fn), (''parameters'', JObj [(''query'', JStr ''coffee'')])])"
  "authorization (llm_request fn) = None"
  by (simp_all add: llm_request_def)

lemma llm_request_facts2:
  "req_method (authorized (llm_request fn)) = ''POST''"
  "req_path (authorized (llm_request fn)) = ''/llm-function''"
  "req_body (authorized (llm_request fn)) =
     Some (JObj [(''function_name'', JStr fn), (''parameters'', JObj [(''query'', JStr ''coffee'')])])"
  "authorization (authorized (llm_request fn)) = Some (''Bearer '' @ ''secret'')"
  "clientIP (x_forwarded_for (authorized (llm_request fn))) = ''203.0.113.7''"
  by (simp_all add: llm_request_def authorized_def clientIP_def)

theorem llm_function_dispatch_witness:
  "app_fetch busy_world sample_config Map.empty 5 (llm_request ''resize'') =
     (Map.empty, [], json_response (ErrorOnly ''Unknown function name'') 400) \<and>
   snd (snd (app_fetch busy_world sample_config Map.empty 5 (llm_request ''search_places''))) =
     \<lparr>status = 401, body = MiddlewareBody\<rparr> \<and>
   snd (app_fetch busy_world sample_config Map.empty 5 (authorized (llm_request ''search_places''))) =
     search_places_handler busy_world sample_config (Some (JObj [(''query'', JStr ''coffee'')]))"
proof -
  let ?obj = "\<lambda>fn. JObj [(''function_name'', JStr fn), (''parameters'', JObj [(''query'', JStr ''coffee'')])]"
  have p: "JObj [(''query'', JStr ''coffee'')] =
      (case field (?obj fn) ''parameters'' of None \<Rightarrow> JObj [] | Some p \<Rightarrow> p)" for fn
    by (simp add: field_def)
  have c: "apiSecret sample_config = Some ''secret''" by (simp add: sample_config_def)
  have n: "?obj fn \<noteq> JNull" for fn by simp
  have f: "field (?obj fn) ''function_name'' = Some (JStr fn)" for fn
    by (simp add: field_def)
  have u: "field (?obj ''resize'') ''function_name'' \<noteq> Some (JStr ''search_places'')"
    "field (?obj ''resize'') ''function_name'' \<noteq> Some (JStr ''get_directions'')"
    by (simp_all add: field_def)
  have a: "authorization (llm_request ''search_places'') \<noteq> Some (''Bearer '' @ ''secret'')"
    by (simp add: llm_request_facts(4))
  have room: "length (validRequests Map.empty (clientIP (x_forwarded_for (authorized (llm_request ''search_places'')))) 5)
      < maxRequests"
    by (simp add: llm_request_facts2(5) validRequests_def clientRequests_def maxRequests_def)
  have 1: "app_fetch busy_world sample_config Map.empty 5 (llm_request ''resize'') =
     (Map.empty, [], json_response (ErrorOnly ''Unknown function name'') 400)"
    using llm_function_dispatch [OF llm_request_facts(1,2,3) n p c, of "''resize''" busy_world Map.empty 5] u
    by blast
  have 2: "snd (snd (app_fetch busy_world sample_config Map.empty 5 (llm_request ''search_places''))) =
     \<lparr>status = 401, body = MiddlewareBody\<rparr>"
    using llm_function_dispatch [OF llm_request_facts(1,2,3) n p c, of "''search_places''" busy_world Map.empty 5]
      f [of "''search_places''"] a
    by blast
  have 3: "snd (app_fetch busy_world sample_config Map.empty 5 (authorized (llm_request ''search_places''))) =
     search_places_handler busy_world sample_config (Some (JObj [(''query'', JStr ''coffee'')]))"
    using llm_function_dispatch [OF llm_request_facts2(1,2,3) n p c, of "''search_places''" busy_world Map.empty 5]
      f [of "''search_places''"] llm_request_facts2(4) room
    by blast
  from 1 2 3 show ?thesis by simp
qed

text \<open>
  The adapter of the earlier revision never gets to \<open>fetch\<close>: for the two names it
  knows, whatever the token and the parameters, and whichever way the framework treats
  the assignment, it answers 500 \<open>Function call failed\<close>.
\<close>

lemma earlier_adapter_never_dispatches:
  assumes "req_body r = Some obj" and "obj \<noteq> JNull"
    and "field obj ''function_name'' = Some (JStr ''search_places'') \<or>
         field obj ''function_name'' = Some (JStr ''get_directions'')"
  shows "llm_function_earlier req_writable fetch r =
           Inl (json_response (ErrorThrown ''Function call failed'' TypeError) 500)"
proof -
  have "redirect_earlier req_writable fetch r e p =
          Inl (json_response (ErrorThrown ''Function call failed'' TypeError) 500)" for e p
    by (simp add: redirect_earlier_def assign_req_def)
  then show ?thesis
    using assms by (cases obj) (auto simp add: llm_function_earlier_def Let_def)
qed

text \<open>
  C7. An envelope naming \<open>search_places\<close> or \<open>get_directions\<close> must be dispatched to the
  route of that name, with the parameters as the body and the caller's
  \<open>Authorization\<close> header. The adapter of the earlier revision does not: for
  \<open>search_places\<close> with the right token and a query it answers 500, and so it does for
  \<open>get_directions\<close>, with \<open>req\<close> writable or not; the request it should have passed
  on is never made.
\<close>

theorem earlier_adapter_answers_500:
  "llm_function_earlier True id (authorized (llm_request ''search_places'')) =
     Inl (json_response (ErrorThrown ''Function call failed'' TypeError) 500) \<and>
   llm_function_earlier False id (authorized (llm_request ''search_places'')) =
     Inl (json_response (ErrorThrown ''Function call failed'' TypeError) 500) \<and>
   llm_function_earlier True id (authorized (llm_request ''get_directions'')) =
     Inl (json_response (ErrorThrown ''Function call failed'' TypeError) 500) \<and>
   llm_function_earlier False id (authorized (llm_request ''get_directions'')) =
     Inl (json_response (ErrorThrown ''Function call failed'' TypeError) 500)"
proof -
  have n: "JObj [(''function_name'', JStr fn), (''parameters'', JObj [(''query'', JStr ''coffee'')])]
             \<noteq> JNull" for fn
    by simp
  have f: "field (JObj [(''function_name'', JStr fn), (''parameters'', JObj [(''query'', JStr ''coffee'')])])
             ''function_name'' = Some (JStr fn)" for fn
    by (simp add: field_def)
  show ?thesis
    using earlier_adapter_never_dispatches [OF llm_request_facts2(3) n, of "''search_places''" True id]
      earlier_adapter_never_dispatches [OF llm_request_facts2(3) n, of "''search_places''" False id]
      earlier_adapter_never_dispatches [OF llm_request_facts2(3) n, of "''get_directions''" True id]
      earlier_adapter_never_dispatches [OF llm_request_facts2(3) n, of "''get_directions''" False id]
    by (simp add: f)
qed

end
